theory Spec2Isabelle
  imports
    Main
    "HOL-Library.Word"
    "HOL-Library.AList"
    "HOL-Library.Char_ord"
    "HOL-Library.List_Lexorder"
begin

section \<open>Data model\<close>

text \<open>
  Buffers are byte lists. Identifiers and names, which the code only compares, sorts
  and concatenates, are modelled as \<open>string\<close>; the order on strings used by
  \<open>Array.prototype.sort\<close> is the lexicographic order on the character codes.
  Text that reaches the codec (plaintext, base64 text, key material) is modelled as a
  JavaScript string is stored: a list of 16-bit UTF-16 code units.
\<close>

type_synonym byte = "8 word"
type_synonym Buffer = "byte list"
type_synonym code_unit = "16 word"
type_synonym js_string = "code_unit list"

text \<open>The JavaScript string whose code units are the character codes of a \<open>string\<close>.\<close>

definition js_of :: "string \<Rightarrow> js_string" where
  "js_of s = map (\<lambda>c. word_of_nat (of_char c)) s"

text \<open>\<open>models/mediaTypes.ts\<close>\<close>

datatype MediaType = IMAGE | AUDIO | VIDEO | DOCUMENT

record MediaMetadata =
  filename :: string
  mimeType :: string
  size_bytes :: int
  width :: "int option"
  height :: "int option"
  duration :: "int option"
  thumbnail :: "string option"

record MediaAttachment =
  media_type :: MediaType
  data :: js_string
  metadata :: MediaMetadata

text \<open>\<open>models/message.ts\<close>\<close>

datatype MessageType = text_msg | media_msg | system_msg

record Message =
  id_msg :: string
  senderId :: string
  receiverId :: "string option"
  groupId :: "string option"
  ciphertext :: js_string
  iv :: js_string
  timestamp :: int
  type_msg :: MessageType
  media :: "MediaAttachment option"

text \<open>\<open>constants.ts\<close>\<close>

datatype MessageStatus = PENDING | SENT | DELIVERED | FAILED

definition MAX_QUEUE_SIZE :: int where "MAX_QUEUE_SIZE = 1000"
definition MESSAGE_RETRY_ATTEMPTS :: int where "MESSAGE_RETRY_ATTEMPTS = 3"
definition MESSAGE_RETRY_DELAY :: int where "MESSAGE_RETRY_DELAY = 2000"

section \<open>Message queue (\<open>utils/messageQueue.ts\<close>)\<close>

record QueuedMessage =
  message :: Message
  status :: MessageStatus
  attempts :: int
  lastAttempt :: "int option"
  error :: "string option"

text \<open>
  The queue is a JavaScript \<open>Map\<close>: an association list in insertion order with
  distinct keys. \<open>Map.set\<close> overwrites the value of a key that is present without
  moving it and appends a new key at the end; \<open>Map.delete\<close> removes the key;
  \<open>keys().next().value\<close> is the first key, or \<open>undefined\<close> on an empty map.
\<close>

type_synonym ('k, 'v) js_map = "('k \<times> 'v) list"

definition Map_set :: "'k \<Rightarrow> 'v \<Rightarrow> ('k, 'v) js_map \<Rightarrow> ('k, 'v) js_map" where
  "Map_set k v m = AList.update k v m"

definition Map_delete :: "'k \<Rightarrow> ('k, 'v) js_map \<Rightarrow> ('k, 'v) js_map" where
  "Map_delete k m = AList.delete k m"

definition Map_get :: "('k, 'v) js_map \<Rightarrow> 'k \<Rightarrow> 'v option" where
  "Map_get m k = map_of m k"

definition Map_size :: "('k, 'v) js_map \<Rightarrow> int" where
  "Map_size m = int (length m)"

definition Map_keys :: "('k, 'v) js_map \<Rightarrow> 'k list" where
  "Map_keys m = map fst m"

definition first_key :: "('k, 'v) js_map \<Rightarrow> 'k option" where
  "first_key m = (case m of [] \<Rightarrow> None | (k, _) # _ \<Rightarrow> Some k)"

text \<open>
  Truthiness of a string, as tested by \<open>if (firstKey)\<close>: the empty string is falsy,
  every other string is truthy (\<open>undefined\<close> is the \<open>None\<close> case of \<open>first_key\<close>).
\<close>

definition truthy :: "string \<Rightarrow> bool" where
  "truthy s = (s \<noteq> [])"

record MessageQueue =
  queue :: "(string, QueuedMessage) js_map"
  maxSize :: int
  maxRetries :: int
  retryDelay :: int

definition new_MessageQueue :: "int \<Rightarrow> int \<Rightarrow> int \<Rightarrow> MessageQueue" where
  "new_MessageQueue ms mr rd =
     \<lparr>queue = [], maxSize = ms, maxRetries = mr, retryDelay = rd\<rparr>"

definition default_MessageQueue :: MessageQueue where
  "default_MessageQueue =
     new_MessageQueue MAX_QUEUE_SIZE MESSAGE_RETRY_ATTEMPTS MESSAGE_RETRY_DELAY"

definition fresh_entry :: "Message \<Rightarrow> QueuedMessage" where
  "fresh_entry m =
     \<lparr>message = m, status = PENDING, attempts = 0, lastAttempt = None, error = None\<rparr>"

definition evict_if_full :: "MessageQueue \<Rightarrow> (string, QueuedMessage) js_map" where
  "evict_if_full mq =
     (if Map_size (queue mq) \<ge> maxSize mq then
        (case first_key (queue mq) of
           None \<Rightarrow> queue mq
         | Some firstKey \<Rightarrow>
             if truthy firstKey then Map_delete firstKey (queue mq) else queue mq)
      else queue mq)"

definition enqueue :: "MessageQueue \<Rightarrow> Message \<Rightarrow> MessageQueue" where
  "enqueue mq m = mq\<lparr>queue := Map_set (id_msg m) (fresh_entry m) (evict_if_full mq)\<rparr>"

definition markSent :: "MessageQueue \<Rightarrow> string \<Rightarrow> MessageQueue" where
  "markSent mq messageId =
     (case Map_get (queue mq) messageId of
        None \<Rightarrow> mq
      | Some queued \<Rightarrow> mq\<lparr>queue := Map_delete messageId (queue mq)\<rparr>)"

text \<open>
  \<open>markFailed\<close> mutates the stored entry in place and then deletes it when the
  retry ceiling is reached. \<open>now\<close> is the value of \<open>Date.now()\<close>.
\<close>

definition failed_entry :: "QueuedMessage \<Rightarrow> string \<Rightarrow> int \<Rightarrow> QueuedMessage" where
  "failed_entry queued err now =
     queued\<lparr>status := FAILED, error := Some err,
            attempts := attempts queued + 1, lastAttempt := Some now\<rparr>"

definition markFailed :: "MessageQueue \<Rightarrow> string \<Rightarrow> string \<Rightarrow> int \<Rightarrow> MessageQueue" where
  "markFailed mq messageId err now =
     (case Map_get (queue mq) messageId of
        None \<Rightarrow> mq
      | Some queued \<Rightarrow>
          (let queued' = failed_entry queued err now;
               q1 = Map_set messageId queued' (queue mq)
           in if attempts queued' \<ge> maxRetries mq
              then mq\<lparr>queue := Map_delete messageId q1\<rparr>
              else mq\<lparr>queue := q1\<rparr>))"

text \<open>Repeated calls of \<open>markFailed\<close> on one id, each with its own error and clock value.\<close>

fun markFailed_times :: "MessageQueue \<Rightarrow> string \<Rightarrow> (string \<times> int) list \<Rightarrow> MessageQueue" where
  "markFailed_times mq messageId [] = mq"
| "markFailed_times mq messageId ((err, now) # calls) =
     markFailed_times (markFailed mq messageId err now) messageId calls"

text \<open>
  The \<open>catch\<close> branch of \<open>ChatSDK.sendMessage\<close> when the transport fails to send:
  the message is enqueued and immediately marked failed.
\<close>

definition queue_for_retry :: "MessageQueue \<Rightarrow> Message \<Rightarrow> string \<Rightarrow> int \<Rightarrow> MessageQueue" where
  "queue_for_retry mq m err now = markFailed (enqueue mq m) (id_msg m) err now"

definition queue_get :: "MessageQueue \<Rightarrow> string \<Rightarrow> QueuedMessage option" where
  "queue_get mq messageId = Map_get (queue mq) messageId"

definition queue_size :: "MessageQueue \<Rightarrow> int" where
  "queue_size mq = Map_size (queue mq)"

text \<open>Well-formed queue state: the keys of the map are distinct.\<close>

definition queue_wf :: "MessageQueue \<Rightarrow> bool" where
  "queue_wf mq = distinct (Map_keys (queue mq))"

text \<open>
  The ids that \<open>ChatSDK\<close> enqueues come from \<open>generateUUID\<close> and are not empty. Queues
  whose keys are not empty are closed under the operations of the queue, and the oldest
  key of such a queue is not empty.
\<close>

definition ids_nonempty :: "MessageQueue \<Rightarrow> bool" where
  "ids_nonempty mq = ([] \<notin> set (Map_keys (queue mq)))"

text \<open>
  The queue states of a \<open>ChatSDK\<close>: its queue is a private field, made by
  \<open>new MessageQueue()\<close> with the default sizes, and the methods of \<open>ChatSDK\<close> call
  \<open>enqueue\<close> (on envelopes made by \<open>encrypt\<close> and \<open>encryptMedia\<close>, whose id is a
  result of \<open>generateUUID\<close>), \<open>markSent\<close> and \<open>markFailed\<close> on it.
\<close>

inductive sdk_queue :: "MessageQueue \<Rightarrow> bool" where
  sdk_new: "sdk_queue default_MessageQueue"
| sdk_enqueue: "sdk_queue mq \<Longrightarrow> id_msg m \<noteq> [] \<Longrightarrow> sdk_queue (enqueue mq m)"
| sdk_markSent: "sdk_queue mq \<Longrightarrow> sdk_queue (markSent mq i)"
| sdk_markFailed: "sdk_queue mq \<Longrightarrow> sdk_queue (markFailed mq i e t)"

section \<open>Platform primitives\<close>

text \<open>
  The cryptographic and encoding primitives come from the Node.js runtime
  (\<open>crypto\<close>, \<open>Buffer\<close>), not from this code base. They are parameters of the
  model, collected in one record; a primitive that throws returns \<open>None\<close>.
  \<^item> \<open>base64_encode\<close>, \<open>base64_decode\<close>: \<open>buffer.toString("base64")\<close> and
    \<open>Buffer.from(data, "base64")\<close> (\<open>crypto/utils.ts\<close>);
  \<^item> \<open>utf8_encode\<close>, \<open>utf8_decode\<close>: the \<open>"utf8"\<close> string encoding of buffers;
  \<^item> \<open>ecdh_public\<close>: the public key of a private key on the curve \<open>prime256v1\<close>;
  \<^item> \<open>ecdh_computeSecret priv pub\<close>: \<open>setPrivateKey(priv)\<close> followed by
    \<open>computeSecret(pub)\<close>;
  \<^item> \<open>sha256\<close>, \<open>pbkdf2Sync password salt iterations keylen\<close> (with digest sha256);
  \<^item> \<open>gcm_encrypt key iv plaintext\<close>: \<open>createCipheriv("aes-256-gcm", key, iv)\<close>,
    \<open>update\<close>, \<open>final\<close> and \<open>getAuthTag\<close>, giving ciphertext and tag;
  \<^item> \<open>gcm_decrypt key iv ciphertext tag\<close>: \<open>createDecipheriv\<close>, \<open>setAuthTag\<close>,
    \<open>update\<close> and \<open>final\<close>, which throws when the tag does not verify.
\<close>

record platform =
  base64_encode :: "Buffer \<Rightarrow> js_string"
  base64_decode :: "js_string \<Rightarrow> Buffer"
  utf8_encode :: "js_string \<Rightarrow> Buffer"
  utf8_decode :: "Buffer \<Rightarrow> js_string"
  ecdh_public :: "Buffer \<Rightarrow> Buffer option"
  ecdh_computeSecret :: "Buffer \<Rightarrow> Buffer \<Rightarrow> Buffer option"
  sha256 :: "Buffer \<Rightarrow> Buffer"
  pbkdf2Sync :: "Buffer \<Rightarrow> Buffer \<Rightarrow> nat \<Rightarrow> nat \<Rightarrow> Buffer"
  gcm_encrypt :: "Buffer \<Rightarrow> Buffer \<Rightarrow> Buffer \<Rightarrow> (Buffer \<times> Buffer) option"
  gcm_decrypt :: "Buffer \<Rightarrow> Buffer \<Rightarrow> Buffer \<Rightarrow> Buffer \<Rightarrow> Buffer option"

text \<open>
  The ambient state read by the code: the random source behind \<open>randomBytes\<close>, the
  supply of \<open>generateUUID\<close> results, and the clock behind \<open>Date.now()\<close>.
\<close>

record world =
  entropy :: "nat \<Rightarrow> byte"
  uuids :: "nat \<Rightarrow> string"
  clock :: int

definition randomBytes :: "nat \<Rightarrow> world \<Rightarrow> Buffer \<times> world" where
  "randomBytes n w = (map (entropy w) [0..<n], w\<lparr>entropy := (\<lambda>i. entropy w (i + n))\<rparr>)"

definition generateUUID :: "world \<Rightarrow> string \<times> world" where
  "generateUUID w = (uuids w 0, w\<lparr>uuids := (\<lambda>i. uuids w (Suc i))\<rparr>)"

definition Date_now :: "world \<Rightarrow> int" where
  "Date_now w = clock w"

text \<open>
  \<open>Buffer.prototype.slice(start, end)\<close>: a negative index counts from the end, and
  both indices are clamped to the buffer.
\<close>

definition slice_index :: "nat \<Rightarrow> int \<Rightarrow> nat" where
  "slice_index n i = (if i < 0 then nat (max 0 (int n + i)) else min (nat i) n)"

definition Buffer_slice :: "Buffer \<Rightarrow> int \<Rightarrow> int \<Rightarrow> Buffer" where
  "Buffer_slice b start stop =
     (let s = slice_index (length b) start; e = slice_index (length b) stop
      in take (e - s) (drop s b))"

definition Buffer_slice_from :: "Buffer \<Rightarrow> int \<Rightarrow> Buffer" where
  "Buffer_slice_from b start = Buffer_slice b start (int (length b))"

text \<open>\<open>Buffer.compare\<close>: bytewise unsigned comparison, a proper prefix sorting first.\<close>

fun Buffer_compare :: "Buffer \<Rightarrow> Buffer \<Rightarrow> int" where
  "Buffer_compare [] [] = 0"
| "Buffer_compare [] (y # ys) = - 1"
| "Buffer_compare (x # xs) [] = 1"
| "Buffer_compare (x # xs) (y # ys) =
     (if x < y then - 1 else if y < x then 1 else Buffer_compare xs ys)"

section \<open>Key agreement and authenticated codec (\<open>crypto/e2e.ts\<close>)\<close>

definition IV_LENGTH :: nat where "IV_LENGTH = 12"
definition SALT_LENGTH :: nat where "SALT_LENGTH = 16"
definition KEY_LENGTH :: nat where "KEY_LENGTH = 32"
definition TAG_LENGTH :: nat where "TAG_LENGTH = 16"
definition PBKDF2_ITERATIONS :: nat where "PBKDF2_ITERATIONS = 100000"

datatype fault =
  CryptoFault
| SessionFault string

record KeyPair =
  publicKey :: js_string
  privateKey :: js_string

definition deriveSharedSecret ::
  "platform \<Rightarrow> 'a KeyPair_scheme \<Rightarrow> js_string \<Rightarrow> fault + Buffer" where
  "deriveSharedSecret pf local remotePublicKey =
     (let remotePublicKeyBuffer = base64_decode pf remotePublicKey
      in case ecdh_computeSecret pf (base64_decode pf (privateKey local)) remotePublicKeyBuffer of
           None \<Rightarrow> Inl CryptoFault
         | Some sharedSecret \<Rightarrow>
             (let a = base64_decode pf (publicKey local);
                  b = base64_decode pf remotePublicKey;
                  (first, second) = (if Buffer_compare a b \<le> 0 then (a, b) else (b, a));
                  hash = sha256 pf (first @ second);
                  salt = Buffer_slice hash 0 (int SALT_LENGTH)
              in Inr (pbkdf2Sync pf sharedSecret salt PBKDF2_ITERATIONS KEY_LENGTH)))"

text \<open>
  \<open>encryptMessage\<close> returns the pair \<open>(ciphertext, iv)\<close> of its result object, and
  the world after the nonce has been drawn.
\<close>

definition encryptMessage ::
  "platform \<Rightarrow> js_string \<Rightarrow> Buffer \<Rightarrow> world
     \<Rightarrow> (fault + js_string \<times> js_string) \<times> world" where
  "encryptMessage pf plaintext secret w =
     (let (ivb, w1) = randomBytes IV_LENGTH w
      in case gcm_encrypt pf secret ivb (utf8_encode pf plaintext) of
           None \<Rightarrow> (Inl CryptoFault, w1)
         | Some (ct, tag) \<Rightarrow>
             (let encrypted = ct @ tag
              in (Inr (base64_encode pf encrypted, base64_encode pf ivb), w1)))"

definition decryptMessage ::
  "platform \<Rightarrow> js_string \<Rightarrow> js_string \<Rightarrow> Buffer \<Rightarrow> fault + js_string" where
  "decryptMessage pf ct ivs secret =
     (let encryptedBuffer = base64_decode pf ct;
          ivBuffer = base64_decode pf ivs;
          tag = Buffer_slice_from encryptedBuffer (- int TAG_LENGTH);
          actualCiphertext = Buffer_slice encryptedBuffer 0 (- int TAG_LENGTH)
      in case gcm_decrypt pf secret ivBuffer actualCiphertext tag of
           None \<Rightarrow> Inl CryptoFault
         | Some decrypted \<Rightarrow> Inr (utf8_decode pf decrypted))"

section \<open>Pairwise session (\<open>ChatSession\<close>)\<close>

text \<open>\<open>models/user.ts\<close>: a user carries a key pair.\<close>

record User = KeyPair +
  id_user :: string
  username :: string
  identityKey :: js_string

record ChatSession =
  id_session :: string
  userA :: User
  userB :: User
  sharedSecret :: "Buffer option"
  ephemeralKeyPair :: "KeyPair option"

definition new_ChatSession :: "string \<Rightarrow> User \<Rightarrow> User \<Rightarrow> ChatSession" where
  "new_ChatSession sid a b =
     \<lparr>id_session = sid, userA = a, userB = b, sharedSecret = None, ephemeralKeyPair = None\<rparr>"

text \<open>
  Every method returns its result or the fault it throws, together with the session
  as the call leaves it (and the world, when the method draws randomness).
\<close>

definition initialize :: "platform \<Rightarrow> ChatSession \<Rightarrow> (fault + unit) \<times> ChatSession" where
  "initialize pf s =
     (let localKeyPair = \<lparr>publicKey = publicKey (userA s), privateKey = privateKey (userA s)\<rparr>
      in case deriveSharedSecret pf localKeyPair (publicKey (userB s)) of
           Inl e \<Rightarrow> (Inl e, s)
         | Inr k \<Rightarrow> (Inr (), s\<lparr>sharedSecret := Some k\<rparr>))"

definition initializeForUser :: "platform \<Rightarrow> ChatSession \<Rightarrow> User \<Rightarrow> (fault + unit) \<times> ChatSession" where
  "initializeForUser pf s user =
     (let otherUser = (if id_user user = id_user (userA s) then userB s else userA s);
          localKeyPair = \<lparr>publicKey = publicKey user, privateKey = privateKey user\<rparr>
      in case deriveSharedSecret pf localKeyPair (publicKey otherUser) of
           Inl e \<Rightarrow> (Inl e, s)
         | Inr k \<Rightarrow> (Inr (), s\<lparr>sharedSecret := Some k\<rparr>))"

text \<open>The common prologue of \<open>encrypt\<close> and \<open>encryptMedia\<close>: initialise lazily, then read the key.\<close>

definition key_for_encrypt :: "platform \<Rightarrow> ChatSession \<Rightarrow> (fault + Buffer) \<times> ChatSession" where
  "key_for_encrypt pf s =
     (case (if sharedSecret s = None then initialize pf s else (Inr (), s)) of
        (Inl e, s1) \<Rightarrow> (Inl e, s1)
      | (Inr _, s1) \<Rightarrow>
          (case sharedSecret s1 of
             None \<Rightarrow> (Inl (SessionFault ''Failed to initialize session''), s1)
           | Some k \<Rightarrow> (Inr k, s1)))"

text \<open>The common prologue of \<open>decrypt\<close> and \<open>decryptMedia\<close>.\<close>

definition key_for_decrypt ::
  "platform \<Rightarrow> ChatSession \<Rightarrow> User \<Rightarrow> (fault + Buffer) \<times> ChatSession" where
  "key_for_decrypt pf s user =
     (case (if sharedSecret s = None
               \<or> (id_user user \<noteq> id_user (userA s) \<and> id_user user \<noteq> id_user (userB s))
            then initializeForUser pf s user else (Inr (), s)) of
        (Inl e, s1) \<Rightarrow> (Inl e, s1)
      | (Inr _, s1) \<Rightarrow>
          (case sharedSecret s1 of
             None \<Rightarrow> (Inl (SessionFault ''Failed to initialize session''), s1)
           | Some k \<Rightarrow> (Inr k, s1)))"

definition other_party :: "ChatSession \<Rightarrow> string \<Rightarrow> string" where
  "other_party s sender =
     (if sender = id_user (userA s) then id_user (userB s) else id_user (userA s))"

definition encrypt ::
  "platform \<Rightarrow> ChatSession \<Rightarrow> js_string \<Rightarrow> string \<Rightarrow> world
     \<Rightarrow> (fault + Message) \<times> ChatSession \<times> world" where
  "encrypt pf s plaintext sender w =
     (case key_for_encrypt pf s of
        (Inl e, s1) \<Rightarrow> (Inl e, s1, w)
      | (Inr k, s1) \<Rightarrow>
          (case encryptMessage pf plaintext k w of
             (Inl e, w1) \<Rightarrow> (Inl e, s1, w1)
           | (Inr (ct, ivs), w1) \<Rightarrow>
               (let (uuid, w2) = generateUUID w1
                in (Inr \<lparr>id_msg = uuid, senderId = sender,
                         receiverId = Some (other_party s1 sender), groupId = None,
                         ciphertext = ct, iv = ivs, timestamp = Date_now w2,
                         type_msg = text_msg, media = None\<rparr>, s1, w2))))"

definition encryptMedia ::
  "platform \<Rightarrow> ChatSession \<Rightarrow> js_string \<Rightarrow> MediaAttachment \<Rightarrow> string \<Rightarrow> world
     \<Rightarrow> (fault + Message) \<times> ChatSession \<times> world" where
  "encryptMedia pf s plaintext md sender w =
     (case key_for_encrypt pf s of
        (Inl e, s1) \<Rightarrow> (Inl e, s1, w)
      | (Inr k, s1) \<Rightarrow>
          (case encryptMessage pf plaintext k w of
             (Inl e, w1) \<Rightarrow> (Inl e, s1, w1)
           | (Inr (ct, ivs), w1) \<Rightarrow>
               (case encryptMessage pf (data md) k w1 of
                  (Inl e, w2) \<Rightarrow> (Inl e, s1, w2)
                | (Inr (encryptedMediaData, _), w2) \<Rightarrow>
                    (let encryptedMedia = md\<lparr>data := encryptedMediaData\<rparr>;
                         (uuid, w3) = generateUUID w2
                     in (Inr \<lparr>id_msg = uuid, senderId = sender,
                              receiverId = Some (other_party s1 sender), groupId = None,
                              ciphertext = ct, iv = ivs, timestamp = Date_now w3,
                              type_msg = media_msg, media = Some encryptedMedia\<rparr>,
                         s1, w3)))))"

definition decrypt ::
  "platform \<Rightarrow> ChatSession \<Rightarrow> Message \<Rightarrow> User \<Rightarrow> (fault + js_string) \<times> ChatSession" where
  "decrypt pf s msg user =
     (case key_for_decrypt pf s user of
        (Inl e, s1) \<Rightarrow> (Inl e, s1)
      | (Inr k, s1) \<Rightarrow> (decryptMessage pf (ciphertext msg) (iv msg) k, s1))"

definition decryptMedia ::
  "platform \<Rightarrow> ChatSession \<Rightarrow> Message \<Rightarrow> User
     \<Rightarrow> (fault + js_string \<times> MediaAttachment) \<times> ChatSession" where
  "decryptMedia pf s msg user =
     (case media msg of
        None \<Rightarrow> (Inl (SessionFault ''Message does not contain media''), s)
      | Some md \<Rightarrow>
          (case key_for_decrypt pf s user of
             (Inl e, s1) \<Rightarrow> (Inl e, s1)
           | (Inr k, s1) \<Rightarrow>
               (case decryptMessage pf (ciphertext msg) (iv msg) k of
                  Inl e \<Rightarrow> (Inl e, s1)
                | Inr txt \<Rightarrow>
                    (case decryptMessage pf (data md) (iv msg) k of
                       Inl e \<Rightarrow> (Inl e, s1)
                     | Inr decryptedMediaData \<Rightarrow>
                         (Inr (txt, md\<lparr>data := decryptedMediaData\<rparr>), s1)))))"

section \<open>Session ids (\<open>ChatSDK.startSession\<close>)\<close>

text \<open>
  \<open>[userA.id, userB.id].sort()\<close> with the default comparator orders the two strings
  lexicographically; the id is the template string \<open>`${ids[0]}-${ids[1]}`\<close>.
\<close>

definition sorted_ids :: "string \<Rightarrow> string \<Rightarrow> string list" where
  "sorted_ids a b = sort [a, b]"

definition sessionId :: "User \<Rightarrow> User \<Rightarrow> string" where
  "sessionId a b =
     (let ids = sorted_ids (id_user a) (id_user b)
      in (ids ! 0) @ ''-'' @ (ids ! 1))"

definition startSession :: "platform \<Rightarrow> User \<Rightarrow> User \<Rightarrow> fault + ChatSession" where
  "startSession pf a b =
     (case initialize pf (new_ChatSession (sessionId a b) a b) of
        (Inl e, _) \<Rightarrow> Inl (SessionFault ''Failed to create chat session'')
      | (Inr _, s) \<Rightarrow> Inr s)"

section \<open>Connection manager (\<open>transport/websocketClient.ts\<close>)\<close>

datatype ConnectionState = DISCONNECTED | CONNECTING | CONNECTED | RECONNECTING | FAILED_conn

definition RECONNECT_MAX_ATTEMPTS :: nat where "RECONNECT_MAX_ATTEMPTS = 5"
definition RECONNECT_BASE_DELAY :: nat where "RECONNECT_BASE_DELAY = 1000"
definition RECONNECT_MAX_DELAY :: nat where "RECONNECT_MAX_DELAY = 30000"

text \<open>
  The fields of the client. \<open>ws\<close> says whether a socket object is held,
  \<open>reconnectTimer\<close> whether a reconnect timer is pending (set and neither fired nor
  cleared), \<open>heartbeatTimer\<close> whether the ping interval runs.
\<close>

record WebSocketClient =
  ws :: bool
  connectionState :: ConnectionState
  reconnectAttempts :: nat
  reconnectTimer :: bool
  heartbeatTimer :: bool
  currentUserId :: "string option"
  shouldReconnect :: bool

definition new_WebSocketClient :: WebSocketClient where
  "new_WebSocketClient =
     \<lparr>ws = False, connectionState = DISCONNECTED, reconnectAttempts = 0,
      reconnectTimer = False, heartbeatTimer = False, currentUserId = None,
      shouldReconnect = True\<rparr>"

text \<open>
  What a handler does to the outside: calls of the registered state and error
  handlers, socket creation and closing, a thrown error, and the reconnect timer it
  sets, with the backoff delay in milliseconds before the random jitter is added.
\<close>

datatype effect =
  StateChanged ConnectionState
| ErrorRaised string
| Thrown string
| SocketCreated
| SocketCloseRequested
| ReconnectScheduled nat

definition updateState :: "WebSocketClient \<Rightarrow> ConnectionState \<Rightarrow> WebSocketClient \<times> effect list" where
  "updateState c newState =
     (if connectionState c \<noteq> newState
      then (c\<lparr>connectionState := newState\<rparr>, [StateChanged newState])
      else (c, []))"

text \<open>
  \<open>doConnect\<close>; \<open>ctor_ok\<close> says whether \<open>new WebSocket(wsUrl)\<close> returns rather than
  throws.
\<close>

definition doConnect :: "WebSocketClient \<Rightarrow> bool \<Rightarrow> WebSocketClient \<times> effect list" where
  "doConnect c ctor_ok =
     (if connectionState c = CONNECTING then (c, [])
      else
        (let (c1, e1) = updateState c CONNECTING
         in if ctor_ok then (c1\<lparr>ws := True\<rparr>, e1 @ [SocketCreated])
            else (c1, e1 @ [ErrorRaised ''Failed to create WebSocket connection''])))"

definition connect :: "WebSocketClient \<Rightarrow> string \<Rightarrow> bool \<Rightarrow> WebSocketClient \<times> effect list" where
  "connect c userId ctor_ok =
     doConnect (c\<lparr>currentUserId := Some userId, shouldReconnect := True\<rparr>) ctor_ok"

definition clearReconnectTimer :: "WebSocketClient \<Rightarrow> WebSocketClient" where
  "clearReconnectTimer c = c\<lparr>reconnectTimer := False\<rparr>"

definition stopHeartbeat :: "WebSocketClient \<Rightarrow> WebSocketClient" where
  "stopHeartbeat c = c\<lparr>heartbeatTimer := False\<rparr>"

definition startHeartbeat :: "WebSocketClient \<Rightarrow> WebSocketClient" where
  "startHeartbeat c = (stopHeartbeat c)\<lparr>heartbeatTimer := True\<rparr>"

definition backoff_delay :: "nat \<Rightarrow> nat" where
  "backoff_delay n = min (RECONNECT_BASE_DELAY * 2 ^ (n - 1)) RECONNECT_MAX_DELAY"

definition scheduleReconnect :: "WebSocketClient \<Rightarrow> WebSocketClient \<times> effect list" where
  "scheduleReconnect c =
     (let c1 = clearReconnectTimer c;
          c2 = c1\<lparr>reconnectAttempts := reconnectAttempts c1 + 1\<rparr>;
          delay = backoff_delay (reconnectAttempts c2);
          (c3, e) = updateState c2 RECONNECTING
      in (c3\<lparr>reconnectTimer := True\<rparr>, e @ [ReconnectScheduled delay]))"

definition onopen :: "WebSocketClient \<Rightarrow> WebSocketClient \<times> effect list" where
  "onopen c =
     (let c1 = c\<lparr>reconnectAttempts := 0\<rparr>;
          (c2, e) = updateState c1 CONNECTED
      in (startHeartbeat c2, e))"

definition onerror :: "WebSocketClient \<Rightarrow> WebSocketClient \<times> effect list" where
  "onerror c = (c, [ErrorRaised ''WebSocket error''])"

definition onclose :: "WebSocketClient \<Rightarrow> WebSocketClient \<times> effect list" where
  "onclose c =
     (let c1 = stopHeartbeat c
      in if connectionState c1 \<noteq> DISCONNECTED then
           (let (c2, e1) = updateState c1 DISCONNECTED
            in if shouldReconnect c2 \<and> reconnectAttempts c2 < RECONNECT_MAX_ATTEMPTS then
                 (let (c3, e2) = scheduleReconnect c2 in (c3, e1 @ e2))
               else if reconnectAttempts c2 \<ge> RECONNECT_MAX_ATTEMPTS then
                 (let (c3, e2) = updateState c2 FAILED_conn
                  in (c3, e1 @ e2 @ [ErrorRaised ''Max reconnection attempts exceeded'']))
               else (c2, e1))
         else (c1, []))"

definition connectionTimeout :: "WebSocketClient \<Rightarrow> WebSocketClient \<times> effect list" where
  "connectionTimeout c =
     (if connectionState c = CONNECTING
      then (c, (if ws c then [SocketCloseRequested] else [])
                 @ [ErrorRaised ''Connection timeout''])
      else (c, []))"

text \<open>The callback of the reconnect timer; it can run only while that timer is pending.\<close>

definition reconnectTimerFired :: "WebSocketClient \<Rightarrow> bool \<Rightarrow> WebSocketClient \<times> effect list" where
  "reconnectTimerFired c ctor_ok =
     (if reconnectTimer c then doConnect (c\<lparr>reconnectTimer := False\<rparr>) ctor_ok else (c, []))"

definition disconnect :: "WebSocketClient \<Rightarrow> WebSocketClient \<times> effect list" where
  "disconnect c =
     (let c1 = stopHeartbeat (clearReconnectTimer (c\<lparr>shouldReconnect := False\<rparr>));
          (c2, e0) = (if ws c1 then (c1\<lparr>ws := False\<rparr>, [SocketCloseRequested]) else (c1, []));
          (c3, e1) = updateState c2 DISCONNECTED
      in (c3, e0 @ e1))"

definition reconnect :: "WebSocketClient \<Rightarrow> bool \<Rightarrow> WebSocketClient \<times> effect list" where
  "reconnect c ctor_ok =
     (let c1 = c\<lparr>reconnectAttempts := 0, shouldReconnect := True\<rparr>;
          (c2, e1) = disconnect c1
      in case currentUserId c2 of
           None \<Rightarrow> (c2, e1 @ [Thrown ''Cannot reconnect: no user ID set''])
         | Some u \<Rightarrow>
             if truthy u then (let (c3, e2) = doConnect c2 ctor_ok in (c3, e1 @ e2))
             else (c2, e1 @ [Thrown ''Cannot reconnect: no user ID set'']))"

text \<open>
  The events that drive the client: the three calls of its public interface, the two
  timers, and the callbacks of a socket. An incoming frame does not touch the fields
  of the client.
\<close>

datatype event =
  Connect string bool
| Disconnect
| Reconnect bool
| ReconnectTimerFired bool
| ConnectionTimeoutFired
| SocketOpen
| SocketError
| SocketClose
| SocketMessage

fun step :: "WebSocketClient \<Rightarrow> event \<Rightarrow> WebSocketClient \<times> effect list" where
  "step c (Connect userId ctor_ok) = connect c userId ctor_ok"
| "step c Disconnect = disconnect c"
| "step c (Reconnect ctor_ok) = reconnect c ctor_ok"
| "step c (ReconnectTimerFired ctor_ok) = reconnectTimerFired c ctor_ok"
| "step c ConnectionTimeoutFired = connectionTimeout c"
| "step c SocketOpen = onopen c"
| "step c SocketError = onerror c"
| "step c SocketClose = onclose c"
| "step c SocketMessage = (c, [])"

fun run :: "WebSocketClient \<Rightarrow> event list \<Rightarrow> WebSocketClient \<times> effect list" where
  "run c [] = (c, [])"
| "run c (ev # evs) =
     (let (c1, e1) = step c ev; (c2, e2) = run c1 evs in (c2, e1 @ e2))"

text \<open>
  Events that happen without the application calling the client and without a
  connection being established: timers firing and sockets failing or closing.
\<close>

fun unattended :: "event \<Rightarrow> bool" where
  "unattended (ReconnectTimerFired _) = True"
| "unattended ConnectionTimeoutFired = True"
| "unattended SocketError = True"
| "unattended SocketClose = True"
| "unattended SocketMessage = True"
| "unattended _ = False"

text \<open>Events that leave the attempt counter alone: all but a socket opening and \<open>reconnect\<close>.\<close>

fun keeps_counter :: "event \<Rightarrow> bool" where
  "keeps_counter SocketOpen = False"
| "keeps_counter (Reconnect _) = False"
| "keeps_counter _ = True"

fun is_schedule :: "effect \<Rightarrow> bool" where
  "is_schedule (ReconnectScheduled _) = True"
| "is_schedule _ = False"

text \<open>
  Events that accompany a failing connection attempt without changing the fields of
  the client: the socket's error event, the connect timeout, an incoming frame.
\<close>

fun failure_noise :: "event \<Rightarrow> bool" where
  "failure_noise SocketError = True"
| "failure_noise ConnectionTimeoutFired = True"
| "failure_noise SocketMessage = True"
| "failure_noise _ = False"

text \<open>
  One automatic reconnect attempt that fails: the reconnect timer fires and opens a
  socket, which closes without having opened, possibly after such events.
\<close>

definition failed_attempt :: "event list \<Rightarrow> event list" where
  "failed_attempt noise = ReconnectTimerFired True # noise @ [SocketClose]"

definition five_failures ::
  "event list \<Rightarrow> event list \<Rightarrow> event list \<Rightarrow> event list \<Rightarrow> event list \<Rightarrow> event list" where
  "five_failures n1 n2 n3 n4 n5 =
     failed_attempt n1 @ failed_attempt n2 @ failed_attempt n3 @ failed_attempt n4
       @ failed_attempt n5"

text \<open>The state in which a reconnect attempt number n is pending.\<close>

definition awaiting_retry :: "nat \<Rightarrow> WebSocketClient \<Rightarrow> bool" where
  "awaiting_retry n c =
     (connectionState c = RECONNECTING \<and> reconnectTimer c \<and> shouldReconnect c
      \<and> reconnectAttempts c = n)"

text \<open>The state after the client has given up reconnecting.\<close>

definition given_up :: "WebSocketClient \<Rightarrow> bool" where
  "given_up c =
     (connectionState c = FAILED_conn \<and> \<not> reconnectTimer c
      \<and> RECONNECT_MAX_ATTEMPTS \<le> reconnectAttempts c)"

text \<open>A client after a successful \<open>connect\<close>.\<close>

definition connected_client :: WebSocketClient where
  "connected_client =
     fst (run new_WebSocketClient [Connect ''alice'' True, SocketOpen])"

section \<open>The UTF-8 codec of the platform\<close>

text \<open>
  The \<open>"utf8"\<close> encoding of Node buffers follows the Encoding Standard. Encoding reads
  the UTF-16 code units as code points, an unpaired surrogate becoming U+FFFD, and
  writes each code point in one to four bytes. Decoding reads the bytes as code points,
  every ill-formed sequence becoming U+FFFD, and writes each code point in one or two
  code units.
\<close>

definition is_high_surrogate :: "code_unit \<Rightarrow> bool" where
  "is_high_surrogate u = (0xD800 \<le> u \<and> u \<le> 0xDBFF)"

definition is_low_surrogate :: "code_unit \<Rightarrow> bool" where
  "is_low_surrogate u = (0xDC00 \<le> u \<and> u \<le> 0xDFFF)"

fun code_points :: "js_string \<Rightarrow> nat list" where
  "code_points [] = []"
| "code_points [u] =
     [if is_high_surrogate u \<or> is_low_surrogate u then 0xFFFD else unat u]"
| "code_points (u # l # us) =
     (if is_high_surrogate u \<and> is_low_surrogate l
      then (0x10000 + (unat u - 0xD800) * 0x400 + (unat l - 0xDC00)) # code_points us
      else if is_high_surrogate u \<or> is_low_surrogate u
      then 0xFFFD # code_points (l # us)
      else unat u # code_points (l # us))"

definition utf8_bytes :: "nat \<Rightarrow> Buffer" where
  "utf8_bytes cp =
     (if cp < 0x80 then [word_of_nat cp]
      else if cp < 0x800 then
        [word_of_nat (0xC0 + cp div 0x40), word_of_nat (0x80 + cp mod 0x40)]
      else if cp < 0x10000 then
        [word_of_nat (0xE0 + cp div 0x1000), word_of_nat (0x80 + cp div 0x40 mod 0x40),
         word_of_nat (0x80 + cp mod 0x40)]
      else
        [word_of_nat (0xF0 + cp div 0x40000), word_of_nat (0x80 + cp div 0x1000 mod 0x40),
         word_of_nat (0x80 + cp div 0x40 mod 0x40), word_of_nat (0x80 + cp mod 0x40)])"

definition std_utf8_encode :: "js_string \<Rightarrow> Buffer" where
  "std_utf8_encode s = concat (map utf8_bytes (code_points s))"

definition is_continuation :: "byte \<Rightarrow> bool" where
  "is_continuation b = (0x80 \<le> b \<and> b \<le> 0xBF)"

definition continuation_bits :: "byte \<Rightarrow> nat" where
  "continuation_bits b = unat b - 0x80"

text \<open>The range of the byte after a lead byte of a three- or four-byte sequence.\<close>

definition second_byte_ok :: "byte \<Rightarrow> byte \<Rightarrow> bool" where
  "second_byte_ok b b1 =
     (if b = 0xE0 then 0xA0 \<le> b1 \<and> b1 \<le> 0xBF
      else if b = 0xED then 0x80 \<le> b1 \<and> b1 \<le> 0x9F
      else if b = 0xF0 then 0x90 \<le> b1 \<and> b1 \<le> 0xBF
      else if b = 0xF4 then 0x80 \<le> b1 \<and> b1 \<le> 0x8F
      else is_continuation b1)"

text \<open>
  \<open>utf8_step b bs\<close> decodes the sequence that starts with the byte \<open>b\<close>, followed by
  \<open>bs\<close>: the code point, and the number of bytes of \<open>bs\<close> it consumed.
\<close>

definition utf8_step :: "byte \<Rightarrow> Buffer \<Rightarrow> nat \<times> nat" where
  "utf8_step b bs =
     (if b < 0x80 then (unat b, 0)
      else if 0xC2 \<le> b \<and> b \<le> 0xDF then
        (case bs of
           [] \<Rightarrow> (0xFFFD, 0)
         | b1 # _ \<Rightarrow>
             if is_continuation b1
             then ((unat b - 0xC0) * 0x40 + continuation_bits b1, 1)
             else (0xFFFD, 0))
      else if 0xE0 \<le> b \<and> b \<le> 0xEF then
        (case bs of
           [] \<Rightarrow> (0xFFFD, 0)
         | b1 # r1 \<Rightarrow>
             if \<not> second_byte_ok b b1 then (0xFFFD, 0)
             else
               (case r1 of
                  [] \<Rightarrow> (0xFFFD, 1)
                | b2 # _ \<Rightarrow>
                    if is_continuation b2
                    then (((unat b - 0xE0) * 0x40 + continuation_bits b1) * 0x40
                            + continuation_bits b2, 2)
                    else (0xFFFD, 1)))
      else if 0xF0 \<le> b \<and> b \<le> 0xF4 then
        (case bs of
           [] \<Rightarrow> (0xFFFD, 0)
         | b1 # r1 \<Rightarrow>
             if \<not> second_byte_ok b b1 then (0xFFFD, 0)
             else
               (case r1 of
                  [] \<Rightarrow> (0xFFFD, 1)
                | b2 # r2 \<Rightarrow>
                    if \<not> is_continuation b2 then (0xFFFD, 1)
                    else
                      (case r2 of
                         [] \<Rightarrow> (0xFFFD, 2)
                       | b3 # _ \<Rightarrow>
                           if is_continuation b3
                           then ((((unat b - 0xF0) * 0x40 + continuation_bits b1) * 0x40
                                    + continuation_bits b2) * 0x40 + continuation_bits b3, 3)
                           else (0xFFFD, 2))))
      else (0xFFFD, 0))"

fun utf8_code_points :: "Buffer \<Rightarrow> nat list" where
  "utf8_code_points [] = []"
| "utf8_code_points (b # bs) =
     fst (utf8_step b bs) # utf8_code_points (drop (snd (utf8_step b bs)) bs)"

definition utf16_units :: "nat \<Rightarrow> js_string" where
  "utf16_units cp =
     (if cp < 0x10000 then [word_of_nat cp]
      else [word_of_nat (0xD800 + (cp - 0x10000) div 0x400),
            word_of_nat (0xDC00 + (cp - 0x10000) mod 0x400)])"

definition std_utf8_decode :: "Buffer \<Rightarrow> js_string" where
  "std_utf8_decode b = concat (map utf16_units (utf8_code_points b))"

text \<open>
  The scalar values of Unicode: the code points that are not surrogates. A string is
  well formed (\<open>String.prototype.isWellFormed\<close>) when every surrogate in it is part of a
  pair, a high surrogate followed by a low one; \<open>toWellFormed\<close> replaces every other
  surrogate by U+FFFD.
\<close>

definition scalar_value :: "nat \<Rightarrow> bool" where
  "scalar_value cp = (cp < 0xD800 \<or> 0xE000 \<le> cp \<and> cp < 0x110000)"

definition replace_surrogate :: "code_unit \<Rightarrow> code_unit" where
  "replace_surrogate u = (if is_high_surrogate u \<or> is_low_surrogate u then 0xFFFD else u)"

fun toWellFormed :: "js_string \<Rightarrow> js_string" where
  "toWellFormed [] = []"
| "toWellFormed [u] = [replace_surrogate u]"
| "toWellFormed (u # l # us) =
     (if is_high_surrogate u \<and> is_low_surrogate l then u # l # toWellFormed us
      else replace_surrogate u # toWellFormed (l # us))"

fun isWellFormed :: "js_string \<Rightarrow> bool" where
  "isWellFormed [] = True"
| "isWellFormed [u] = (\<not> is_high_surrogate u \<and> \<not> is_low_surrogate u)"
| "isWellFormed (u # l # us) =
     (if is_high_surrogate u \<and> is_low_surrogate l then isWellFormed us
      else \<not> is_high_surrogate u \<and> \<not> is_low_surrogate u \<and> isWellFormed (l # us))"

section \<open>Assumptions on the platform primitives\<close>

text \<open>
  What the properties below take for granted about the runtime: base64 decoding inverts
  encoding; AES-256-GCM with a 32-byte key and a 12-byte nonce yields a 16-byte tag and
  decrypts what it encrypted; ECDH is commutative on key pairs of the curve; PBKDF2
  returns as many bytes as asked for.
\<close>

definition base64_roundtrip :: "platform \<Rightarrow> bool" where
  "base64_roundtrip pf = (\<forall>b. base64_decode pf (base64_encode pf b) = b)"

definition aead_correct :: "platform \<Rightarrow> bool" where
  "aead_correct pf =
     (\<forall>key nonce pt. length key = KEY_LENGTH \<and> length nonce = IV_LENGTH \<longrightarrow>
        (\<exists>ct tag. gcm_encrypt pf key nonce pt = Some (ct, tag) \<and> length tag = TAG_LENGTH
           \<and> gcm_decrypt pf key nonce ct tag = Some pt))"

definition ecdh_commutative :: "platform \<Rightarrow> bool" where
  "ecdh_commutative pf =
     (\<forall>a b pa pb. ecdh_public pf a = Some pa \<and> ecdh_public pf b = Some pb \<longrightarrow>
        ecdh_computeSecret pf a pb \<noteq> None
        \<and> ecdh_computeSecret pf a pb = ecdh_computeSecret pf b pa)"

definition pbkdf2_length :: "platform \<Rightarrow> bool" where
  "pbkdf2_length pf = (\<forall>pw salt iters n. length (pbkdf2Sync pf pw salt iters n) = n)"

text \<open>
  A platform has the standard codec when it encodes every string as above and decodes
  the encoding of every string, that is, every well-formed UTF-8 sequence, as above;
  what its decoder makes of other bytes is left open.
\<close>

definition standard_utf8 :: "platform \<Rightarrow> bool" where
  "standard_utf8 pf =
     (\<forall>s. utf8_encode pf s = std_utf8_encode s
          \<and> utf8_decode pf (std_utf8_encode s) = std_utf8_decode (std_utf8_encode s))"

text \<open>
  The idealised authenticity of the cipher: it accepts a ciphertext and tag only if
  they are what it produces, with a tag of full length, for the plaintext it returns.
\<close>

definition aead_authentic :: "platform \<Rightarrow> bool" where
  "aead_authentic pf =
     (\<forall>key nonce ct tag pt. gcm_decrypt pf key nonce ct tag = Some pt \<longrightarrow>
        gcm_encrypt pf key nonce pt = Some (ct, tag) \<and> length tag = TAG_LENGTH)"

text \<open>A well-formed key pair: the public key is the one the curve gives for the private key.\<close>

definition valid_identity :: "platform \<Rightarrow> 'a KeyPair_scheme \<Rightarrow> bool" where
  "valid_identity pf kp =
     (ecdh_public pf (base64_decode pf (privateKey kp)) = Some (base64_decode pf (publicKey kp)))"

section \<open>A small instance of the platform\<close>

text \<open>
  A concrete platform on which the model can be run: strings and buffers are
  converted unit by unit (which reproduces code units below 256), key agreement is
  multiplication of bytes, the cipher shifts every byte by key and nonce and tags the
  result with a checksum.
\<close>

definition toy_chars :: "Buffer \<Rightarrow> js_string" where
  "toy_chars b = map ucast b"

definition toy_bytes :: "js_string \<Rightarrow> Buffer" where
  "toy_bytes s = map ucast s"

definition byte0 :: "Buffer \<Rightarrow> byte" where
  "byte0 b = (case b of [] \<Rightarrow> 0 | x # _ \<Rightarrow> x)"

definition toy_public :: "Buffer \<Rightarrow> Buffer option" where
  "toy_public priv = Some [byte0 priv * 3]"

definition toy_computeSecret :: "Buffer \<Rightarrow> Buffer \<Rightarrow> Buffer option" where
  "toy_computeSecret priv pub = Some [byte0 priv * byte0 pub]"

definition toy_sha256 :: "Buffer \<Rightarrow> Buffer" where
  "toy_sha256 b = take 32 (b @ replicate 32 0)"

definition toy_pbkdf2 :: "Buffer \<Rightarrow> Buffer \<Rightarrow> nat \<Rightarrow> nat \<Rightarrow> Buffer" where
  "toy_pbkdf2 pw salt iters n = take n (pw @ salt @ replicate n 0)"

definition toy_tag :: "Buffer \<Rightarrow> Buffer \<Rightarrow> Buffer \<Rightarrow> Buffer" where
  "toy_tag key nonce ct = replicate 16 (byte0 key + byte0 nonce + sum_list ct)"

definition toy_gcm_encrypt :: "Buffer \<Rightarrow> Buffer \<Rightarrow> Buffer \<Rightarrow> (Buffer \<times> Buffer) option" where
  "toy_gcm_encrypt key nonce pt =
     (if length key = 32
      then (let ct = map (\<lambda>b. b + (byte0 key + byte0 nonce)) pt in Some (ct, toy_tag key nonce ct))
      else None)"

definition toy_gcm_decrypt :: "Buffer \<Rightarrow> Buffer \<Rightarrow> Buffer \<Rightarrow> Buffer \<Rightarrow> Buffer option" where
  "toy_gcm_decrypt key nonce ct tag =
     (if length key = 32 \<and> tag = toy_tag key nonce ct
      then Some (map (\<lambda>b. b - (byte0 key + byte0 nonce)) ct)
      else None)"

definition toy :: platform where
  "toy = \<lparr>base64_encode = toy_chars, base64_decode = toy_bytes,
          utf8_encode = toy_bytes, utf8_decode = toy_chars,
          ecdh_public = toy_public, ecdh_computeSecret = toy_computeSecret,
          sha256 = toy_sha256, pbkdf2Sync = toy_pbkdf2,
          gcm_encrypt = toy_gcm_encrypt, gcm_decrypt = toy_gcm_decrypt\<rparr>"

text \<open>The small platform with the standard UTF-8 codec in place of the unit-by-unit one.\<close>

definition toy_utf8 :: platform where
  "toy_utf8 = toy\<lparr>utf8_encode := std_utf8_encode, utf8_decode := std_utf8_decode\<rparr>"

text \<open>
  Without the \<open>authTagLength\<close> option, the GCM decipher of the platform accepts a tag of
  4, 8 or 12 to 16 bytes and compares it with the leading bytes of the tag it computes.
  The small platform with a cipher that does so:
\<close>

definition gcm_tag_lengths :: "nat list" where
  "gcm_tag_lengths = [4, 8, 12, 13, 14, 15, 16]"

definition toy_gcm_decrypt_short :: "Buffer \<Rightarrow> Buffer \<Rightarrow> Buffer \<Rightarrow> Buffer \<Rightarrow> Buffer option" where
  "toy_gcm_decrypt_short key nonce ct tag =
     (if length key = 32 \<and> length tag \<in> set gcm_tag_lengths
         \<and> tag = take (length tag) (toy_tag key nonce ct)
      then Some (map (\<lambda>b. b - (byte0 key + byte0 nonce)) ct)
      else None)"

definition toy_short_tags :: platform where
  "toy_short_tags = toy\<lparr>gcm_decrypt := toy_gcm_decrypt_short\<rparr>"

definition toy_world :: world where
  "toy_world = \<lparr>entropy = (\<lambda>i. word_of_nat i), uuids = (\<lambda>i. replicate (Suc i) CHR ''u''),
                clock = 1700000000000\<rparr>"

definition toy_key :: Buffer where
  "toy_key = replicate 32 7"

definition toy_user :: "string \<Rightarrow> byte \<Rightarrow> User" where
  "toy_user name priv =
     \<lparr>publicKey = toy_chars [priv * 3], privateKey = toy_chars [priv],
      id_user = name, username = name, identityKey = toy_chars [priv * 3]\<rparr>"

definition alice :: User where "alice = toy_user ''alice'' 5"
definition bob :: User where "bob = toy_user ''bob'' 9"
definition carol :: User where "carol = toy_user ''carol'' 11"

definition mk_msg :: "string \<Rightarrow> Message" where
  "mk_msg i =
     \<lparr>id_msg = i, senderId = ''alice'', receiverId = Some ''bob'', groupId = None,
      ciphertext = js_of ''c'', iv = js_of ''n'', timestamp = 0, type_msg = text_msg, media = None\<rparr>"

definition photo :: MediaAttachment where
  "photo =
     \<lparr>media_type = IMAGE, data = js_of ''px'',
      metadata = \<lparr>filename = ''a.png'', mimeType = ''image/png'', size_bytes = 2,
                  width = None, height = None, duration = None, thumbnail = None\<rparr>\<rparr>"

definition retried_queue :: MessageQueue where
  "retried_queue =
     markFailed (enqueue default_MessageQueue (mk_msg ''m1'')) ''m1'' ''offline'' 5"

definition small_queue :: MessageQueue where
  "small_queue = enqueue (new_MessageQueue 1 3 2000) (mk_msg [])"

definition two_queue :: MessageQueue where
  "two_queue = enqueue (enqueue (new_MessageQueue 2 3 2000) (mk_msg ''a'')) (mk_msg ''b'')"

definition alice_bob_session :: ChatSession where
  "alice_bob_session = snd (initialize toy (new_ChatSession (sessionId alice bob) alice bob))"

section \<open>Properties of the message queue\<close>

lemma Map_get_set_same: "Map_get (Map_set k v m) k = Some v"
  by (simp add: Map_get_def Map_set_def update_conv')

lemma Map_get_delete_same: "Map_get (Map_delete k m) k = None"
  by (simp add: Map_get_def Map_delete_def delete_conv')

lemma Map_keys_set_present:
  "k \<in> set (Map_keys m) \<Longrightarrow> Map_keys (Map_set k v m) = Map_keys m"
  by (simp add: Map_keys_def Map_set_def update_keys)

lemma distinct_Map_set: "distinct (Map_keys m) \<Longrightarrow> distinct (Map_keys (Map_set k v m))"
  unfolding Map_keys_def Map_set_def by (rule distinct_update)

lemma distinct_Map_delete: "distinct (Map_keys m) \<Longrightarrow> distinct (Map_keys (Map_delete k m))"
  unfolding Map_keys_def Map_delete_def by (rule distinct_delete)

lemma distinct_evict_if_full:
  "queue_wf mq \<Longrightarrow> distinct (Map_keys (evict_if_full mq))"
  by (simp add: queue_wf_def evict_if_full_def distinct_Map_delete split: option.splits)

lemma markFailed_step:
  assumes "queue_get mq i = Some q"
  shows "queue_get (markFailed mq i e t) i =
     (if maxRetries mq \<le> attempts q + 1 then None else Some (failed_entry q e t))"
  using assms
  by (simp add: queue_get_def markFailed_def Let_def Map_get_set_same Map_get_delete_same
      failed_entry_def)

lemma markFailed_absent: "queue_get mq i = None \<Longrightarrow> markFailed mq i e t = mq"
  by (simp add: queue_get_def markFailed_def)

lemma markFailed_maxRetries [simp]: "maxRetries (markFailed mq i e t) = maxRetries mq"
  by (simp add: markFailed_def Let_def split: option.splits)

lemma markFailed_times_absent:
  "queue_get mq i = None \<Longrightarrow> queue_get (markFailed_times mq i calls) i = None"
  by (induction calls arbitrary: mq) (auto simp: markFailed_absent)

lemma markFailed_times_removes:
  "queue_get mq i = Some q \<Longrightarrow> maxRetries mq \<le> attempts q + int (length calls)
     \<Longrightarrow> calls \<noteq> [] \<Longrightarrow> queue_get (markFailed_times mq i calls) i = None"
proof (induction calls arbitrary: mq q)
  case Nil
  then show ?case by simp
next
  case (Cons c calls)
  obtain e t where c: "c = (e, t)" by (cases c)
  show ?case
  proof (cases "maxRetries mq \<le> attempts q + 1")
    case True
    then have "queue_get (markFailed mq i e t) i = None"
      using Cons.prems(1) by (simp add: markFailed_step)
    then show ?thesis by (simp add: c markFailed_times_absent)
  next
    case False
    then have st: "queue_get (markFailed mq i e t) i = Some (failed_entry q e t)"
      using Cons.prems(1) by (simp add: markFailed_step)
    have ne: "calls \<noteq> []" using False Cons.prems(2) by auto
    have "maxRetries (markFailed mq i e t) \<le> attempts (failed_entry q e t) + int (length calls)"
      using Cons.prems(2) by (simp add: failed_entry_def)
    from Cons.IH [OF st this ne] show ?thesis by (simp add: c)
  qed
qed

text \<open>
  What \<open>enqueue\<close> does to the order of the map for a message whose id is not queued:
  below capacity the entry is appended; at capacity, when the oldest key is a non-empty
  string, the oldest entry is dropped first.
\<close>

lemma Map_set_absent: "k \<notin> set (Map_keys m) \<Longrightarrow> Map_set k v m = m @ [(k, v)]"
  by (induction m) (auto simp: Map_set_def Map_keys_def)

lemma Map_delete_head:
  "distinct (Map_keys ((k, v) # rest)) \<Longrightarrow> Map_delete k ((k, v) # rest) = rest"
  by (force simp add: Map_delete_def Map_keys_def AList.delete_eq filter_id_conv)

lemma enqueue_below_capacity:
  assumes "queue_size mq < maxSize mq" and "id_msg m \<notin> set (Map_keys (queue mq))"
  shows "queue (enqueue mq m) = queue mq @ [(id_msg m, fresh_entry m)]"
  using assms by (simp add: enqueue_def evict_if_full_def queue_size_def Map_set_absent)

lemma enqueue_at_capacity:
  assumes "queue_wf mq" and "maxSize mq \<le> queue_size mq"
    and "queue mq = (k, v) # rest" and "truthy k"
    and "id_msg m \<notin> set (Map_keys (queue mq))"
  shows "queue (enqueue mq m) = rest @ [(id_msg m, fresh_entry m)]"
proof -
  have "evict_if_full mq = rest"
    using assms by (simp add: evict_if_full_def queue_size_def first_key_def
        Map_delete_head queue_wf_def)
  moreover have "id_msg m \<notin> set (Map_keys rest)"
    using assms(3,5) by (simp add: Map_keys_def)
  ultimately show ?thesis by (simp add: enqueue_def Map_set_absent)
qed

text \<open>
  C10. Enqueueing a message whose id is already queued leaves exactly one entry for
  that id, and that entry is a fresh one: status pending, zero attempts, no recorded
  last attempt and no recorded error, whatever the old entry held. So when the
  orchestrator enqueues such a message again after a failed send and marks it failed,
  its attempts counter is 1, whatever it was before.
\<close>

theorem enqueue_existing_resets_entry:
  assumes "queue_wf mq"
    and "queue_get mq (id_msg m) = Some old"
  shows "queue_get (enqueue mq m) (id_msg m)
           = Some \<lparr>message = m, status = PENDING, attempts = 0,
                   lastAttempt = None, error = None\<rparr>
         \<and> queue_wf (enqueue mq m)
         \<and> queue_get (queue_for_retry mq m err now) (id_msg m)
             = (if maxRetries mq \<le> 1 then None
                else Some \<lparr>message = m, status = FAILED, attempts = 1,
                          lastAttempt = Some now, error = Some err\<rparr>)"
proof -
  have fresh: "queue_get (enqueue mq m) (id_msg m) = Some (fresh_entry m)"
    by (simp add: queue_get_def enqueue_def Map_get_set_same)
  have wf: "queue_wf (enqueue mq m)"
    using assms(1) distinct_evict_if_full [of mq]
    by (simp add: enqueue_def queue_wf_def distinct_Map_set)
  have "queue_get (queue_for_retry mq m err now) (id_msg m)
      = (if maxRetries mq \<le> 1 then None else Some (failed_entry (fresh_entry m) err now))"
    using markFailed_step [OF fresh, of err now]
    by (simp add: queue_for_retry_def fresh_entry_def enqueue_def)
  with fresh wf show ?thesis
    by (simp add: fresh_entry_def failed_entry_def)
qed

theorem enqueue_existing_resets_entry_witness:
  "attempts (the (queue_get retried_queue ''m1'')) = 1
   \<and> status (the (queue_get retried_queue ''m1'')) = FAILED
   \<and> queue_get (enqueue retried_queue (mk_msg ''m1'')) ''m1''
       = Some \<lparr>message = mk_msg ''m1'', status = PENDING, attempts = 0,
               lastAttempt = None, error = None\<rparr>
   \<and> queue_get (queue_for_retry retried_queue (mk_msg ''m1'') ''timeout'' 9) ''m1''
       = Some \<lparr>message = mk_msg ''m1'', status = FAILED, attempts = 1,
               lastAttempt = Some 9, error = Some ''timeout''\<rparr>"
proof -
  have mr: "maxRetries retried_queue = 3"
    by (simp add: retried_queue_def enqueue_def default_MessageQueue_def
        new_MessageQueue_def MESSAGE_RETRY_ATTEMPTS_def)
  have q: "queue_get retried_queue ''m1''
      = Some (failed_entry (fresh_entry (mk_msg ''m1'')) ''offline'' 5)"
    by (simp add: retried_queue_def default_MessageQueue_def new_MessageQueue_def
        MESSAGE_RETRY_ATTEMPTS_def MAX_QUEUE_SIZE_def markFailed_def enqueue_def
        evict_if_full_def Map_size_def Map_set_def Map_get_def queue_get_def mk_msg_def
        fresh_entry_def failed_entry_def Let_def)
  have wf: "queue_wf retried_queue"
    by (simp add: retried_queue_def default_MessageQueue_def new_MessageQueue_def
        MESSAGE_RETRY_ATTEMPTS_def MAX_QUEUE_SIZE_def markFailed_def enqueue_def
        evict_if_full_def Map_size_def Map_set_def Map_get_def queue_wf_def Map_keys_def
        mk_msg_def fresh_entry_def failed_entry_def Let_def)
  have i: "id_msg (mk_msg ''m1'') = ''m1''" by (simp add: mk_msg_def)
  show ?thesis
    using enqueue_existing_resets_entry [OF wf, of "mk_msg ''m1''" _ "''timeout''" 9] q
    by (simp add: i mr failed_entry_def fresh_entry_def)
qed

text \<open>
  C8. A call of \<open>markFailed\<close> on a queued id increments the attempts counter and
  records the error and the time of the attempt; the entry stays queued with these
  values while the counter is below \<open>maxRetries\<close> and is removed once the counter
  reaches it. Hence \<open>maxRetries\<close> calls (at least one) on the same id remove the
  entry, whatever errors and times they report. The default ceiling is 3.
\<close>

theorem markFailed_counts_and_removes:
  assumes "queue_get mq i = Some q"
  shows "queue_get (markFailed mq i e t) i =
           (if maxRetries mq \<le> attempts q + 1 then None
            else Some (q\<lparr>status := FAILED, error := Some e,
                         attempts := attempts q + 1, lastAttempt := Some t\<rparr>))
         \<and> (0 \<le> attempts q \<and> 0 < maxRetries mq \<and> int (length calls) = maxRetries mq
              \<longrightarrow> queue_get (markFailed_times mq i calls) i = None)
         \<and> maxRetries default_MessageQueue = 3"
proof (intro conjI impI)
  show "queue_get (markFailed mq i e t) i =
      (if maxRetries mq \<le> attempts q + 1 then None
       else Some (q\<lparr>status := FAILED, error := Some e,
                    attempts := attempts q + 1, lastAttempt := Some t\<rparr>))"
    using markFailed_step [OF assms, of e t] by (simp add: failed_entry_def)
next
  assume h: "0 \<le> attempts q \<and> 0 < maxRetries mq \<and> int (length calls) = maxRetries mq"
  then have "maxRetries mq \<le> attempts q + int (length calls)" and "calls \<noteq> []"
    by auto
  with assms show "queue_get (markFailed_times mq i calls) i = None"
    by (rule markFailed_times_removes)
next
  show "maxRetries default_MessageQueue = 3"
    by (simp add: default_MessageQueue_def new_MessageQueue_def MESSAGE_RETRY_ATTEMPTS_def)
qed

theorem markFailed_counts_and_removes_witness:
  "queue_get (markFailed retried_queue ''m1'' ''timeout'' 9) ''m1''
     = Some \<lparr>message = mk_msg ''m1'', status = FAILED, attempts = 2,
             lastAttempt = Some 9, error = Some ''timeout''\<rparr>
   \<and> queue_get (markFailed_times (enqueue default_MessageQueue (mk_msg ''m1'')) ''m1''
        [(''offline'', 5), (''timeout'', 9), (''refused'', 12)]) ''m1'' = None"
proof -
  have q: "queue_get retried_queue ''m1''
      = Some (failed_entry (fresh_entry (mk_msg ''m1'')) ''offline'' 5)"
    by (simp add: retried_queue_def default_MessageQueue_def new_MessageQueue_def
        MESSAGE_RETRY_ATTEMPTS_def MAX_QUEUE_SIZE_def markFailed_def enqueue_def
        evict_if_full_def Map_size_def Map_set_def Map_get_def queue_get_def mk_msg_def
        fresh_entry_def failed_entry_def Let_def)
  have m: "maxRetries retried_queue = 3"
    by (simp add: retried_queue_def enqueue_def default_MessageQueue_def
        new_MessageQueue_def MESSAGE_RETRY_ATTEMPTS_def)
  have q0: "queue_get (enqueue default_MessageQueue (mk_msg ''m1'')) ''m1''
      = Some (fresh_entry (mk_msg ''m1''))"
    by (simp add: queue_get_def enqueue_def Map_get_set_same mk_msg_def)
  have m0: "maxRetries (enqueue default_MessageQueue (mk_msg ''m1'')) = 3"
    by (simp add: enqueue_def default_MessageQueue_def new_MessageQueue_def
        MESSAGE_RETRY_ATTEMPTS_def)
  show ?thesis
    using markFailed_counts_and_removes [OF q, of "''timeout''" 9 "[]"]
      markFailed_counts_and_removes [OF q0, of "''x''" 0
        "[(''offline'', 5), (''timeout'', 9), (''refused'', 12)]"]
    by (simp add: m m0 failed_entry_def fresh_entry_def)
qed

lemma evict_if_full_at_capacity:
  assumes "queue_wf mq" and "maxSize mq \<le> queue_size mq"
    and "first_key (queue mq) \<noteq> Some []"
  shows "evict_if_full mq = tl (queue mq)"
proof (cases "queue mq")
  case Nil
  then show ?thesis by (simp add: evict_if_full_def first_key_def)
next
  case (Cons kv rest)
  obtain k v where kv: "kv = (k, v)" by (cases kv)
  have "truthy k"
    using assms(3) Cons kv by (simp add: first_key_def truthy_def)
  then show ?thesis
    using assms(1,2) Cons kv
    by (simp add: evict_if_full_def queue_size_def first_key_def Map_delete_head queue_wf_def)
qed

lemma evict_if_full_below_capacity:
  "queue_size mq < maxSize mq \<Longrightarrow> evict_if_full mq = queue mq"
  by (simp add: evict_if_full_def queue_size_def)

lemma Map_keys_tl: "set (Map_keys (tl m)) \<subseteq> set (Map_keys m)"
  by (cases m) (auto simp: Map_keys_def)

lemma ids_nonempty_new: "ids_nonempty (new_MessageQueue ms mr rd)"
  by (simp add: ids_nonempty_def new_MessageQueue_def Map_keys_def)

lemma ids_nonempty_first_key: "ids_nonempty mq \<Longrightarrow> first_key (queue mq) \<noteq> Some []"
  by (cases "queue mq") (auto simp: ids_nonempty_def first_key_def Map_keys_def)

lemma Map_keys_delete: "set (Map_keys (Map_delete k m)) \<subseteq> set (Map_keys m)"
  by (induction m) (auto simp: Map_keys_def Map_delete_def)

lemma Map_keys_set: "set (Map_keys (Map_set k v m)) = insert k (set (Map_keys m))"
  by (induction m) (auto simp: Map_keys_def Map_set_def)

lemma Map_keys_evict_if_full: "set (Map_keys (evict_if_full mq)) \<subseteq> set (Map_keys (queue mq))"
  using Map_keys_delete [of _ "queue mq"]
  by (auto simp: evict_if_full_def split: option.splits)

lemma ids_nonempty_enqueue:
  assumes "ids_nonempty mq" and "id_msg m \<noteq> []"
  shows "ids_nonempty (enqueue mq m)"
  using assms Map_keys_evict_if_full [of mq]
  by (auto simp: ids_nonempty_def enqueue_def Map_keys_set)

lemma ids_nonempty_markSent: "ids_nonempty mq \<Longrightarrow> ids_nonempty (markSent mq i)"
  using Map_keys_delete [of i "queue mq"]
  by (auto simp: ids_nonempty_def markSent_def split: option.splits)

lemma ids_nonempty_markFailed: "ids_nonempty mq \<Longrightarrow> ids_nonempty (markFailed mq i e t)"
proof (cases "Map_get (queue mq) i")
  case None
  then show "ids_nonempty mq \<Longrightarrow> ?thesis" by (simp add: markFailed_def)
next
  case (Some q)
  then have "i \<in> set (Map_keys (queue mq))"
    by (auto simp: Map_get_def Map_keys_def dest: map_of_SomeD intro: rev_image_eqI)
  then have k: "set (Map_keys (Map_set i x (queue mq))) = set (Map_keys (queue mq))" for x
    by (auto simp: Map_keys_set)
  show "ids_nonempty mq \<Longrightarrow> ?thesis"
    using Some k Map_keys_delete [of i "Map_set i (failed_entry q e t) (queue mq)"]
    by (auto simp: ids_nonempty_def markFailed_def Let_def)
qed

lemma queue_wf_enqueue: "queue_wf mq \<Longrightarrow> queue_wf (enqueue mq m)"
  using distinct_evict_if_full [of mq]
  by (simp add: enqueue_def queue_wf_def distinct_Map_set)

lemma queue_wf_markSent: "queue_wf mq \<Longrightarrow> queue_wf (markSent mq i)"
  by (simp add: markSent_def queue_wf_def distinct_Map_delete split: option.splits)

lemma queue_wf_markFailed: "queue_wf mq \<Longrightarrow> queue_wf (markFailed mq i e t)"
  by (simp add: markFailed_def queue_wf_def Let_def distinct_Map_set distinct_Map_delete
      split: option.splits)

lemma sdk_queue_invariant: "sdk_queue mq \<Longrightarrow> queue_wf mq \<and> ids_nonempty mq"
proof (induction rule: sdk_queue.induct)
  case sdk_new
  show ?case
    by (simp add: default_MessageQueue_def ids_nonempty_new)
      (simp add: queue_wf_def new_MessageQueue_def Map_keys_def)
next
  case (sdk_enqueue mq m)
  then show ?case by (simp add: queue_wf_enqueue ids_nonempty_enqueue)
next
  case (sdk_markSent mq i)
  then show ?case by (simp add: queue_wf_markSent ids_nonempty_markSent)
next
  case (sdk_markFailed mq i e t)
  then show ?case by (simp add: queue_wf_markFailed ids_nonempty_markFailed)
qed

lemma sdk_queue_first_key: "sdk_queue mq \<Longrightarrow> first_key (queue mq) \<noteq> Some []"
  using sdk_queue_invariant ids_nonempty_first_key by blast

text \<open>
  C7. Let the oldest key of the queue, if there is one, be a non-empty string, as it is
  in every queue state of a \<open>ChatSDK\<close>. When the size of the queue has reached \<open>maxSize\<close>,
  \<open>enqueue\<close> drops exactly the first entry in insertion order and then stores the new
  envelope in what remains; for an envelope whose id is not queued the result is the old
  queue without its first entry, followed by the new entry. Below capacity nothing is
  dropped: for an envelope whose id is not queued the result is the whole old queue
  followed by the new entry. Which entry is dropped depends on the position alone, not
  on the entries.
\<close>

theorem enqueue_fifo_eviction:
  assumes "queue_wf mq"
    and "first_key (queue mq) \<noteq> Some []"
  shows "(maxSize mq \<le> queue_size mq \<longrightarrow>
            queue (enqueue mq m) = Map_set (id_msg m) (fresh_entry m) (tl (queue mq)))
       \<and> (maxSize mq \<le> queue_size mq \<and> id_msg m \<notin> set (Map_keys (queue mq)) \<longrightarrow>
            queue (enqueue mq m) = tl (queue mq) @ [(id_msg m, fresh_entry m)])
       \<and> (queue_size mq < maxSize mq \<longrightarrow>
            queue (enqueue mq m) = Map_set (id_msg m) (fresh_entry m) (queue mq))
       \<and> (queue_size mq < maxSize mq \<and> id_msg m \<notin> set (Map_keys (queue mq)) \<longrightarrow>
            queue (enqueue mq m) = queue mq @ [(id_msg m, fresh_entry m)])"
proof -
  have full: "queue (enqueue mq m) = Map_set (id_msg m) (fresh_entry m) (tl (queue mq))"
    if "maxSize mq \<le> queue_size mq"
    using evict_if_full_at_capacity [OF assms(1) that assms(2)] by (simp add: enqueue_def)
  have below: "queue (enqueue mq m) = Map_set (id_msg m) (fresh_entry m) (queue mq)"
    if "queue_size mq < maxSize mq"
    using evict_if_full_below_capacity [OF that] by (simp add: enqueue_def)
  have new_tl: "id_msg m \<notin> set (Map_keys (tl (queue mq)))"
    if "id_msg m \<notin> set (Map_keys (queue mq))"
    using that Map_keys_tl [of "queue mq"] by blast
  show ?thesis
    using full below new_tl by (simp add: Map_set_absent)
qed

theorem enqueue_fifo_eviction_witness:
  "queue_size two_queue = maxSize two_queue
   \<and> Map_keys (queue two_queue) = [''a'', ''b'']
   \<and> queue (enqueue two_queue (mk_msg ''c''))
       = [(''b'', fresh_entry (mk_msg ''b'')), (''c'', fresh_entry (mk_msg ''c''))]
   \<and> queue (enqueue (new_MessageQueue 2 3 2000) (mk_msg ''a''))
       = [(''a'', fresh_entry (mk_msg ''a''))]"
proof -
  have q: "queue two_queue
      = [(''a'', fresh_entry (mk_msg ''a'')), (''b'', fresh_entry (mk_msg ''b''))]"
    by (simp add: two_queue_def new_MessageQueue_def enqueue_def evict_if_full_def
        Map_size_def Map_set_def mk_msg_def)
  have ms: "maxSize two_queue = 2"
    by (simp add: two_queue_def new_MessageQueue_def enqueue_def)
  have wf: "queue_wf two_queue"
    by (simp add: queue_wf_def q Map_keys_def)
  have fk: "first_key (queue two_queue) \<noteq> Some []"
    by (simp add: q first_key_def)
  have wf0: "queue_wf (new_MessageQueue 2 3 2000)"
    by (simp add: queue_wf_def new_MessageQueue_def Map_keys_def)
  have fk0: "first_key (queue (new_MessageQueue 2 3 2000)) \<noteq> Some []"
    by (simp add: new_MessageQueue_def first_key_def)
  have i: "id_msg (mk_msg x) = x" for x
    by (simp add: mk_msg_def)
  show ?thesis
    using enqueue_fifo_eviction [OF wf fk, of "mk_msg ''c''"]
      enqueue_fifo_eviction [OF wf0 fk0, of "mk_msg ''a''"]
    by (simp add: q ms i queue_size_def Map_size_def Map_keys_def Map_set_def
        new_MessageQueue_def)
qed

text \<open>
  The condition on the oldest key cannot be dropped. \<open>enqueue\<close> tests the first key with
  \<open>if (firstKey)\<close>, which is false for the empty string as it is for \<open>undefined\<close>: a full
  queue of capacity 1 whose only key is the empty string keeps its entry and grows to
  two entries, where the same queue with the key \<open>a\<close> drops it. No call of \<open>enqueue\<close> in
  \<open>ChatSDK\<close> passes an envelope with the empty id.
\<close>

lemma enqueue_empty_oldest_key_kept:
  "queue_size small_queue = maxSize small_queue
   \<and> Map_keys (queue small_queue) = [[]]
   \<and> Map_keys (queue (enqueue small_queue (mk_msg ''b''))) = [[], ''b'']
   \<and> queue_size (enqueue small_queue (mk_msg ''b'')) = 2
   \<and> Map_keys (queue (enqueue (enqueue (new_MessageQueue 1 3 2000) (mk_msg ''a''))
        (mk_msg ''b''))) = [''b'']"
  by (simp add: small_queue_def new_MessageQueue_def enqueue_def evict_if_full_def
      Map_size_def Map_set_def Map_delete_def Map_keys_def first_key_def truthy_def
      queue_size_def mk_msg_def)

section \<open>Properties of the UTF-8 codec\<close>

lemma unat_byte: "n < 256 \<Longrightarrow> unat (word_of_nat n :: byte) = n"
  by (simp add: unat_of_nat)


lemma decode_1:
  assumes "cp < 0x80"
  shows "utf8_code_points (utf8_bytes cp @ rest) = cp # utf8_code_points rest"
proof -
  have u: "unat (word_of_nat cp :: byte) = cp"
    using assms by (simp add: unat_byte)
  have b: "utf8_bytes cp = [word_of_nat cp]"
    using assms by (simp add: utf8_bytes_def)
  have s: "utf8_step (word_of_nat cp) rest = (cp, 0)"
    using assms by (simp add: utf8_step_def word_less_nat_alt u)
  show ?thesis
    by (simp add: b s)
qed


lemma utf8_step_2:
  assumes "0xC2 \<le> unat b" and "unat b \<le> 0xDF" and "0x80 \<le> unat b1" and "unat b1 \<le> 0xBF"
  shows "utf8_step b (b1 # r) = ((unat b - 0xC0) * 0x40 + (unat b1 - 0x80), 1)"
  using assms
  by (simp add: utf8_step_def word_le_nat_alt word_less_nat_alt is_continuation_def
      continuation_bits_def)

lemma decode_2:
  assumes "0x80 \<le> cp" and "cp < 0x800"
  shows "utf8_code_points (utf8_bytes cp @ rest) = cp # utf8_code_points rest"
proof -
  define n0 where "n0 = 0xC0 + cp div 0x40"
  define n1 where "n1 = 0x80 + cp mod 0x40"
  have r0: "0xC2 \<le> n0" "n0 \<le> 0xDF" using assms unfolding n0_def by arith+
  have r1: "0x80 \<le> n1" "n1 \<le> 0xBF" unfolding n1_def by arith+
  have u0: "unat (word_of_nat n0 :: byte) = n0" using r0 by (simp add: unat_byte)
  have u1: "unat (word_of_nat n1 :: byte) = n1" using r1 by (simp add: unat_byte)
  have v: "(n0 - 0xC0) * 0x40 + (n1 - 0x80) = cp" unfolding n0_def n1_def by simp
  have b: "utf8_bytes cp = [word_of_nat n0, word_of_nat n1]"
    using assms by (simp add: utf8_bytes_def n0_def n1_def)
  have s: "utf8_step (word_of_nat n0) (word_of_nat n1 # rest) = (cp, 1)"
    using utf8_step_2 [of "word_of_nat n0" "word_of_nat n1" rest] r0 r1
    unfolding u0 u1 v by simp
  show ?thesis
    by (simp add: b s)
qed


lemma second_byte_ok_nat:
  "second_byte_ok b b1 =
     (if unat b = 0xE0 then 0xA0 \<le> unat b1 \<and> unat b1 \<le> 0xBF
      else if unat b = 0xED then 0x80 \<le> unat b1 \<and> unat b1 \<le> 0x9F
      else if unat b = 0xF0 then 0x90 \<le> unat b1 \<and> unat b1 \<le> 0xBF
      else if unat b = 0xF4 then 0x80 \<le> unat b1 \<and> unat b1 \<le> 0x8F
      else 0x80 \<le> unat b1 \<and> unat b1 \<le> 0xBF)"
proof -
  have e: "(b = w) = (unat b = unat w)" for w
    by (rule word_unat_eq_iff)
  show ?thesis
    unfolding second_byte_ok_def is_continuation_def e [of "0xE0"] e [of "0xED"]
      e [of "0xF0"] e [of "0xF4"] word_le_nat_alt
    by simp
qed

lemma utf8_step_3:
  assumes "0xE0 \<le> unat b" and "unat b \<le> 0xEF"
    and "second_byte_ok b b1"
    and "0x80 \<le> unat b2" and "unat b2 \<le> 0xBF"
  shows "utf8_step b (b1 # b2 # r)
    = (((unat b - 0xE0) * 0x40 + (unat b1 - 0x80)) * 0x40 + (unat b2 - 0x80), 2)"
  using assms
  by (simp add: utf8_step_def word_le_nat_alt word_less_nat_alt is_continuation_def
      continuation_bits_def)

lemma utf8_step_4:
  assumes "0xF0 \<le> unat b" and "unat b \<le> 0xF4"
    and "second_byte_ok b b1"
    and "0x80 \<le> unat b2" and "unat b2 \<le> 0xBF"
    and "0x80 \<le> unat b3" and "unat b3 \<le> 0xBF"
  shows "utf8_step b (b1 # b2 # b3 # r)
    = ((((unat b - 0xF0) * 0x40 + (unat b1 - 0x80)) * 0x40 + (unat b2 - 0x80)) * 0x40
         + (unat b3 - 0x80), 3)"
  using assms
  by (simp add: utf8_step_def word_le_nat_alt word_less_nat_alt is_continuation_def
      continuation_bits_def)

lemma split_3: "(cp div 0x1000 * 0x40 + cp div 0x40 mod 0x40) * 0x40 + cp mod 0x40 = (cp::nat)"
proof -
  have "cp div 0x1000 = cp div 0x40 div 0x40"
    by (simp add: div_mult2_eq [symmetric])
  then show ?thesis by simp
qed

lemma split_4:
  "((cp div 0x40000 * 0x40 + cp div 0x1000 mod 0x40) * 0x40 + cp div 0x40 mod 0x40) * 0x40
      + cp mod 0x40 = (cp::nat)"
proof -
  have a: "cp div 0x1000 = cp div 0x40 div 0x40"
    by (simp add: div_mult2_eq [symmetric])
  have b: "cp div 0x40000 = cp div 0x40 div 0x40 div 0x40"
    by (simp add: div_mult2_eq [symmetric])
  show ?thesis unfolding a b by simp
qed


lemma mod_window:
  fixes q :: nat
  assumes "a * d + lo \<le> q" and "q < a * d + hi" and "hi \<le> d"
  shows "lo \<le> q mod d \<and> q mod d < hi"
proof -
  define r where "r = q - a * d"
  have q: "q = a * d + r" and r: "lo \<le> r" "r < hi"
    using assms unfolding r_def by linarith+
  have "q mod d = r"
    using r assms(3) by (simp add: q)
  then show ?thesis using r by simp
qed

lemma div_window:
  fixes n :: nat
  assumes "lo * d \<le> n" and "n < hi * d" and "0 < d"
  shows "lo \<le> n div d \<and> n div d < hi"
  using assms by (simp add: less_eq_div_iff_mult_less_eq div_less_iff_less_mult)

lemma sb_E0:
  fixes cp :: nat
  assumes "0x800 \<le> cp" and "cp < 0x1000"
  shows "0x20 \<le> cp div 0x40 mod 0x40"
proof -
  have "0x20 \<le> cp div 0x40 \<and> cp div 0x40 < 0x40"
    using assms by (intro div_window) simp_all
  then show ?thesis
    using mod_window [of 0 "0x40" "0x20" "cp div 0x40" "0x40"] by simp
qed

lemma sb_ED:
  fixes cp :: nat
  assumes "0xD000 \<le> cp" and "cp < 0xD800"
  shows "cp div 0x40 mod 0x40 < 0x20"
proof -
  have "0x340 \<le> cp div 0x40 \<and> cp div 0x40 < 0x360"
    using assms by (intro div_window) simp_all
  then show ?thesis
    using mod_window [of "0xD" "0x40" 0 "cp div 0x40" "0x20"] by simp
qed

lemma sb_F0:
  fixes cp :: nat
  assumes "0x10000 \<le> cp" and "cp < 0x40000"
  shows "0x10 \<le> cp div 0x1000 mod 0x40"
proof -
  have "0x10 \<le> cp div 0x1000 \<and> cp div 0x1000 < 0x40"
    using assms by (intro div_window) simp_all
  then show ?thesis
    using mod_window [of 0 "0x40" "0x10" "cp div 0x1000" "0x40"] by simp
qed

lemma sb_F4:
  fixes cp :: nat
  assumes "0x100000 \<le> cp" and "cp < 0x110000"
  shows "cp div 0x1000 mod 0x40 < 0x10"
proof -
  have "0x100 \<le> cp div 0x1000 \<and> cp div 0x1000 < 0x110"
    using assms by (intro div_window) simp_all
  then show ?thesis
    using mod_window [of 4 "0x40" 0 "cp div 0x1000" "0x10"] by simp
qed


lemma decode_3:
  assumes "0x800 \<le> cp" and "cp < 0x10000" and "cp < 0xD800 \<or> 0xE000 \<le> cp"
  shows "utf8_code_points (utf8_bytes cp @ rest) = cp # utf8_code_points rest"
proof -
  define q0 where "q0 = cp div 0x1000"
  define q1 where "q1 = cp div 0x40 mod 0x40"
  define q2 where "q2 = cp mod 0x40"
  define b0 :: byte where "b0 = word_of_nat (0xE0 + q0)"
  define b1 :: byte where "b1 = word_of_nat (0x80 + q1)"
  define b2 :: byte where "b2 = word_of_nat (0x80 + q2)"
  have r0: "q0 < 0x10"
    using assms(2) unfolding q0_def by (simp add: div_less_iff_less_mult)
  have r1: "q1 < 0x40" and r2: "q2 < 0x40"
    unfolding q1_def q2_def by simp_all
  have u0: "unat b0 = 0xE0 + q0"
    unfolding b0_def using r0 by (intro unat_byte) simp
  have u1: "unat b1 = 0x80 + q1"
    unfolding b1_def using r1 by (intro unat_byte) simp
  have u2: "unat b2 = 0x80 + q2"
    unfolding b2_def using r2 by (intro unat_byte) simp
  have lo: "0x20 \<le> q1" if "q0 = 0"
  proof -
    have "cp < 0x1000"
      using that unfolding q0_def by (simp add: div_eq_0_iff)
    then show ?thesis
      using sb_E0 [OF assms(1)] unfolding q1_def by simp
  qed
  have hi: "q1 < 0x20" if "q0 = 0xD"
  proof -
    have "0xD \<le> cp div 0x1000" and "cp div 0x1000 < 0xE"
      using that unfolding q0_def by simp_all
    then have "0xD000 \<le> cp" and "cp < 0xE000"
      by (simp_all add: less_eq_div_iff_mult_less_eq div_less_iff_less_mult)
    then show ?thesis
      using assms(3) sb_ED [of cp] unfolding q1_def by simp
  qed
  have sb: "second_byte_ok b0 b1"
    unfolding second_byte_ok_nat u0 u1 using r0 r1 lo hi by auto
  have v: "((0xE0 + q0 - 0xE0) * 0x40 + (0x80 + q1 - 0x80)) * 0x40 + (0x80 + q2 - 0x80) = cp"
    using split_3 [of cp] unfolding q0_def q1_def q2_def by simp
  have b: "utf8_bytes cp = [b0, b1, b2]"
    using assms(1,2) by (simp add: utf8_bytes_def q0_def q1_def q2_def b0_def b1_def b2_def)
  have s: "utf8_step b0 (b1 # b2 # rest) = (cp, 2)"
    using utf8_step_3 [OF _ _ sb, of b2 rest] r0 r2
    unfolding u0 u1 u2 v by simp
  show ?thesis
    by (simp add: b s)
qed

lemma decode_4:
  assumes "0x10000 \<le> cp" and "cp < 0x110000"
  shows "utf8_code_points (utf8_bytes cp @ rest) = cp # utf8_code_points rest"
proof -
  define q0 where "q0 = cp div 0x40000"
  define q1 where "q1 = cp div 0x1000 mod 0x40"
  define q2 where "q2 = cp div 0x40 mod 0x40"
  define q3 where "q3 = cp mod 0x40"
  define b0 :: byte where "b0 = word_of_nat (0xF0 + q0)"
  define b1 :: byte where "b1 = word_of_nat (0x80 + q1)"
  define b2 :: byte where "b2 = word_of_nat (0x80 + q2)"
  define b3 :: byte where "b3 = word_of_nat (0x80 + q3)"
  have r0: "q0 \<le> 4"
  proof -
    have "cp div 0x40000 < 5"
      using assms(2) by (simp add: div_less_iff_less_mult)
    then show ?thesis unfolding q0_def by simp
  qed
  have r1: "q1 < 0x40" and r2: "q2 < 0x40" and r3: "q3 < 0x40"
    unfolding q1_def q2_def q3_def by simp_all
  have u0: "unat b0 = 0xF0 + q0"
    unfolding b0_def using r0 by (intro unat_byte) simp
  have u1: "unat b1 = 0x80 + q1"
    unfolding b1_def using r1 by (intro unat_byte) simp
  have u2: "unat b2 = 0x80 + q2"
    unfolding b2_def using r2 by (intro unat_byte) simp
  have u3: "unat b3 = 0x80 + q3"
    unfolding b3_def using r3 by (intro unat_byte) simp
  have lo: "0x10 \<le> q1" if "q0 = 0"
  proof -
    have "cp < 0x40000"
      using that unfolding q0_def by (simp add: div_eq_0_iff)
    then show ?thesis
      using sb_F0 [OF assms(1)] unfolding q1_def by simp
  qed
  have hi: "q1 < 0x10" if "q0 = 4"
  proof -
    have "4 \<le> cp div 0x40000"
      using that unfolding q0_def by simp
    then have "0x100000 \<le> cp"
      by (simp add: less_eq_div_iff_mult_less_eq)
    then show ?thesis
      using assms(2) sb_F4 [of cp] unfolding q1_def by simp
  qed
  have sb: "second_byte_ok b0 b1"
    unfolding second_byte_ok_nat u0 u1 using r0 r1 lo hi by auto
  have v: "(((0xF0 + q0 - 0xF0) * 0x40 + (0x80 + q1 - 0x80)) * 0x40 + (0x80 + q2 - 0x80)) * 0x40
      + (0x80 + q3 - 0x80) = cp"
    using split_4 [of cp] unfolding q0_def q1_def q2_def q3_def by simp
  have b: "utf8_bytes cp = [b0, b1, b2, b3]"
    using assms(1)
    by (simp add: utf8_bytes_def q0_def q1_def q2_def q3_def b0_def b1_def b2_def b3_def)
  have s: "utf8_step b0 (b1 # b2 # b3 # rest) = (cp, 3)"
    using utf8_step_4 [OF _ _ sb, of b2 b3 rest] r0 r2 r3
    unfolding u0 u1 u2 u3 v by simp
  show ?thesis
    by (simp add: b s)
qed

lemma decode_scalar:
  assumes "scalar_value cp"
  shows "utf8_code_points (utf8_bytes cp @ rest) = cp # utf8_code_points rest"
proof -
  consider "cp < 0x80" | "0x80 \<le> cp \<and> cp < 0x800" | "0x800 \<le> cp \<and> cp < 0x10000"
    | "0x10000 \<le> cp"
    by linarith
  then show ?thesis
  proof cases
    case 1
    then show ?thesis by (rule decode_1)
  next
    case 2
    then show ?thesis by (simp add: decode_2)
  next
    case 3
    then show ?thesis using assms by (intro decode_3) (auto simp: scalar_value_def)
  next
    case 4
    then show ?thesis using assms by (intro decode_4) (auto simp: scalar_value_def)
  qed
qed

lemma decode_scalars:
  assumes "\<forall>cp \<in> set cps. scalar_value cp"
  shows "utf8_code_points (concat (map utf8_bytes cps)) = cps"
  using assms by (induction cps) (simp_all add: decode_scalar)


lemma surrogate_nat:
  "is_high_surrogate u = (0xD800 \<le> unat u \<and> unat u \<le> 0xDBFF)"
  "is_low_surrogate u = (0xDC00 \<le> unat u \<and> unat u \<le> 0xDFFF)"
  by (simp_all add: is_high_surrogate_def is_low_surrogate_def word_le_nat_alt)

lemma unit_less: "unat (u::code_unit) < 0x10000"
  using unsigned_less [of u] by simp

lemma utf16_units_unit: "utf16_units (unat u) = [u]"
  by (simp add: utf16_units_def unit_less)

lemma scalar_unit:
  "\<not> is_high_surrogate u \<Longrightarrow> \<not> is_low_surrogate u \<Longrightarrow> scalar_value (unat u)"
  using unit_less [of u] by (auto simp: surrogate_nat scalar_value_def)

lemma scalar_replacement: "scalar_value 0xFFFD"
  by (simp add: scalar_value_def)

lemma utf16_units_replacement: "utf16_units 0xFFFD = [0xFFFD]"
  by (simp add: utf16_units_def)

lemma surrogate_pair:
  assumes "is_high_surrogate u" and "is_low_surrogate l"
  shows "scalar_value (0x10000 + (unat u - 0xD800) * 0x400 + (unat l - 0xDC00))"
    and "utf16_units (0x10000 + (unat u - 0xD800) * 0x400 + (unat l - 0xDC00)) = [u, l]"
proof -
  define a where "a = unat u - 0xD800"
  define b where "b = unat l - 0xDC00"
  have a: "a < 0x400" and ua: "0xD800 + a = unat u"
    using assms(1) unfolding a_def surrogate_nat by linarith+
  have b: "b < 0x400" and lb: "0xDC00 + b = unat l"
    using assms(2) unfolding b_def surrogate_nat by linarith+
  have "a * 0x400 \<le> 0x3FF * 0x400"
    using a by (intro mult_le_mono1) simp
  then have hi: "0x10000 + a * 0x400 + b < 0x110000"
    using b by simp
  show "scalar_value (0x10000 + (unat u - 0xD800) * 0x400 + (unat l - 0xDC00))"
    using hi unfolding a_def [symmetric] b_def [symmetric] by (simp add: scalar_value_def)
  have d: "(a * 0x400 + b) div 0x400 = a" and m: "(a * 0x400 + b) mod 0x400 = b"
    using b by simp_all
  have "utf16_units (0x10000 + a * 0x400 + b)
      = [word_of_nat (0xD800 + a), word_of_nat (0xDC00 + b)]"
    unfolding utf16_units_def using d m by (simp add: add.assoc)
  then show "utf16_units (0x10000 + (unat u - 0xD800) * 0x400 + (unat l - 0xDC00)) = [u, l]"
    unfolding a_def [symmetric] b_def [symmetric] ua lb by simp
qed

lemma code_points_scalar: "\<forall>cp \<in> set (code_points s). scalar_value cp"
  by (induction s rule: code_points.induct)
    (auto simp: scalar_unit scalar_replacement surrogate_pair(1))

lemma code_points_units: "concat (map utf16_units (code_points s)) = toWellFormed s"
  by (induction s rule: code_points.induct)
    (auto simp: replace_surrogate_def utf16_units_unit utf16_units_replacement
      surrogate_pair(2))

lemma std_utf8_roundtrip: "std_utf8_decode (std_utf8_encode s) = toWellFormed s"
  unfolding std_utf8_decode_def std_utf8_encode_def
  by (simp add: decode_scalars [OF code_points_scalar] code_points_units)

lemma replacement_not_surrogate:
  "\<not> is_high_surrogate 0xFFFD" "\<not> is_low_surrogate 0xFFFD"
  by (simp_all add: is_high_surrogate_def is_low_surrogate_def)

lemma toWellFormed_fixed: "toWellFormed s = s \<longleftrightarrow> isWellFormed s"
  by (induction s rule: toWellFormed.induct)
    (auto simp: replace_surrogate_def replacement_not_surrogate)

section \<open>Properties of the codec, the key agreement and the session id\<close>

lemma byte_ucast_roundtrip: "ucast (ucast (b::byte) :: code_unit) = b"
  by (simp add: ucast_up_ucast_id is_up)

lemma toy_bytes_chars [simp]: "toy_bytes (toy_chars b) = b"
  by (induction b) (simp_all add: toy_chars_def toy_bytes_def byte_ucast_roundtrip)

lemma unit_ucast_roundtrip:
  assumes "n < 256"
  shows "ucast (ucast (word_of_nat n :: code_unit) :: byte) = (word_of_nat n :: code_unit)"
proof -
  have a: "unat (word_of_nat n :: code_unit) = n"
    using assms by (simp add: unat_of_nat)
  have b: "(ucast (word_of_nat n :: code_unit) :: byte) = word_of_nat n"
    using a by (metis of_nat_unat)
  have c: "unat (word_of_nat n :: byte) = n"
    using assms by (simp add: unat_of_nat)
  show ?thesis
    unfolding b using c by (metis of_nat_unat)
qed

lemma toy_chars_bytes_js_of [simp]: "toy_chars (toy_bytes (js_of s)) = js_of s"
  by (induction s) (simp_all add: toy_chars_def toy_bytes_def js_of_def unit_ucast_roundtrip)

lemma toy_base64_roundtrip: "base64_roundtrip toy"
  by (simp add: base64_roundtrip_def toy_def)

lemma toy_aead_correct: "aead_correct toy"
  by (simp add: aead_correct_def toy_def toy_gcm_encrypt_def toy_gcm_decrypt_def
      KEY_LENGTH_def TAG_LENGTH_def toy_tag_def Let_def o_def)

lemma toy_ecdh_commutative: "ecdh_commutative toy"
  by (auto simp: ecdh_commutative_def toy_def toy_public_def toy_computeSecret_def byte0_def)

lemma toy_pbkdf2_length: "pbkdf2_length toy"
  by (auto simp add: pbkdf2_length_def toy_def toy_pbkdf2_def)

lemma toy_user_valid: "valid_identity toy (toy_user n p)"
  by (simp add: valid_identity_def toy_def toy_user_def toy_public_def byte0_def)

lemma slice_tag: "length tag = TAG_LENGTH \<Longrightarrow> Buffer_slice_from (ct @ tag) (- int TAG_LENGTH) = tag"
  by (simp add: Buffer_slice_from_def Buffer_slice_def slice_index_def Let_def TAG_LENGTH_def)

lemma slice_ciphertext: "length tag = TAG_LENGTH \<Longrightarrow> Buffer_slice (ct @ tag) 0 (- int TAG_LENGTH) = ct"
  by (simp add: Buffer_slice_def slice_index_def Let_def TAG_LENGTH_def)

lemma decrypt_of_encrypted:
  assumes "base64_roundtrip pf" and "length tag = TAG_LENGTH"
  shows "decryptMessage pf (base64_encode pf (ct @ tag)) (base64_encode pf nonce) k =
     (case gcm_decrypt pf k nonce ct tag of None \<Rightarrow> Inl CryptoFault
      | Some d \<Rightarrow> Inr (utf8_decode pf d))"
  using assms
  by (simp add: decryptMessage_def base64_roundtrip_def slice_tag slice_ciphertext Let_def)

lemma length_randomBytes: "length (fst (randomBytes n w)) = n"
  by (simp add: randomBytes_def)

text \<open>
  One call of \<open>encryptMessage\<close> under a 32-byte key succeeds, and \<open>decryptMessage\<close>
  applied to the ciphertext and iv of that call, under the same key, returns the
  plaintext after a pass through the UTF-8 codec of the platform.
\<close>

lemma decrypt_encrypted:
  assumes b64: "base64_roundtrip pf"
    and aead: "aead_correct pf"
    and key: "length K = KEY_LENGTH"
  shows "\<exists>c i w'. encryptMessage pf P K w = (Inr (c, i), w')
           \<and> decryptMessage pf c i K = Inr (utf8_decode pf (utf8_encode pf P))"
proof -
  obtain nonce w1 where rb: "randomBytes IV_LENGTH w = (nonce, w1)"
    by (cases "randomBytes IV_LENGTH w")
  have "length nonce = IV_LENGTH"
    using length_randomBytes [of IV_LENGTH w] rb by simp
  with aead key obtain ct tag where
    enc: "gcm_encrypt pf K nonce (utf8_encode pf P) = Some (ct, tag)"
    and tag: "length tag = TAG_LENGTH"
    and dec: "gcm_decrypt pf K nonce ct tag = Some (utf8_encode pf P)"
    unfolding aead_correct_def by blast
  have e: "encryptMessage pf P K w =
      (Inr (base64_encode pf (ct @ tag), base64_encode pf nonce), w1)"
    by (simp add: encryptMessage_def rb enc)
  have d: "decryptMessage pf (base64_encode pf (ct @ tag)) (base64_encode pf nonce) K
      = Inr (utf8_decode pf (utf8_encode pf P))"
    by (simp add: decrypt_of_encrypted [OF b64 tag] dec)
  from e d show ?thesis by blast
qed

lemma toy_utf8_base64_roundtrip: "base64_roundtrip toy_utf8"
  by (simp add: base64_roundtrip_def toy_utf8_def toy_def)

lemma toy_utf8_aead_correct: "aead_correct toy_utf8"
  using toy_aead_correct by (simp add: aead_correct_def toy_utf8_def)

lemma toy_utf8_standard: "standard_utf8 toy_utf8"
  by (simp add: standard_utf8_def toy_utf8_def)

text \<open>
  C1, amended. On a platform with the standard UTF-8 codec, whose base64 decoding
  inverts its encoding and whose AES-GCM decrypts what it encrypted, for every 32-byte
  key \<open>K\<close> and every plaintext string \<open>P\<close>, one call of \<open>encryptMessage\<close> succeeds, and
  \<open>decryptMessage\<close> applied to the ciphertext and iv of that same call, under \<open>K\<close>,
  returns \<open>P\<close> with every unpaired surrogate replaced by U+FFFD. So it returns \<open>P\<close>
  when \<open>P\<close> has no unpaired surrogate, and only then.
\<close>

theorem encrypt_decrypt_roundtrip:
  assumes b64: "base64_roundtrip pf"
    and aead: "aead_correct pf"
    and utf8: "standard_utf8 pf"
    and key: "length K = KEY_LENGTH"
  shows "\<exists>c i w'. encryptMessage pf P K w = (Inr (c, i), w')
           \<and> decryptMessage pf c i K = Inr (toWellFormed P)
           \<and> (isWellFormed P \<longrightarrow> decryptMessage pf c i K = Inr P)
           \<and> (\<not> isWellFormed P \<longrightarrow> decryptMessage pf c i K \<noteq> Inr P)"
proof -
  obtain c i w' where e: "encryptMessage pf P K w = (Inr (c, i), w')"
    and d: "decryptMessage pf c i K = Inr (utf8_decode pf (utf8_encode pf P))"
    using decrypt_encrypted [OF b64 aead key] by blast
  have "utf8_decode pf (utf8_encode pf P) = toWellFormed P"
    using utf8 by (simp add: standard_utf8_def std_utf8_roundtrip)
  with d have d': "decryptMessage pf c i K = Inr (toWellFormed P)"
    by simp
  show ?thesis
    using e d' toWellFormed_fixed [of P] by auto
qed

theorem encrypt_decrypt_roundtrip_witness:
  "\<exists>c i w'. encryptMessage toy_utf8 [0x68, 0xE9, 0x20AC, 0xD83D, 0xDE00] toy_key toy_world
        = (Inr (c, i), w')
      \<and> decryptMessage toy_utf8 c i toy_key = Inr [0x68, 0xE9, 0x20AC, 0xD83D, 0xDE00]"
proof -
  have wf: "isWellFormed [0x68, 0xE9, 0x20AC, 0xD83D, 0xDE00]"
    by (simp add: is_high_surrogate_def is_low_surrogate_def)
  have key: "length toy_key = KEY_LENGTH"
    by (simp add: toy_key_def KEY_LENGTH_def)
  show ?thesis
    using encrypt_decrypt_roundtrip [OF toy_utf8_base64_roundtrip toy_utf8_aead_correct
        toy_utf8_standard key, of "[0x68, 0xE9, 0x20AC, 0xD83D, 0xDE00]" toy_world] wf
    by blast
qed

text \<open>
  C1 as it stands, for every plaintext string, does not hold on a platform with the
  standard UTF-8 codec: a string is a sequence of UTF-16 code units, and encoding
  replaces an unpaired surrogate by U+FFFD. The plaintext made of the single code unit
  D800 is encrypted without a fault, and decrypting the result of that call under the
  same key returns the one code unit FFFD. On this platform base64 decoding inverts
  encoding and the cipher decrypts what it encrypted.
\<close>

theorem encrypt_decrypt_lone_surrogate:
  "fst (encryptMessage toy_utf8 [0xD800] toy_key toy_world)
     = Inr (base64_encode toy_utf8 ([0xF6, 0xC6, 0xC4] @ replicate 16 0x87),
            base64_encode toy_utf8 (map word_of_nat [0..<12]))
   \<and> decryptMessage toy_utf8
         (base64_encode toy_utf8 ([0xF6, 0xC6, 0xC4] @ replicate 16 0x87))
         (base64_encode toy_utf8 (map word_of_nat [0..<12])) toy_key
     = Inr [0xFFFD]"
proof -
  note b64 = toy_utf8_base64_roundtrip
  have enc: "std_utf8_encode [0xD800] = [0xEF, 0xBF, 0xBD]"
    by (simp add: std_utf8_encode_def is_high_surrogate_def is_low_surrogate_def
        utf8_bytes_def)
  have dec: "std_utf8_decode [0xEF, 0xBF, 0xBD] = [0xFFFD]"
    by (simp add: std_utf8_decode_def utf8_step_def is_continuation_def second_byte_ok_def
        continuation_bits_def utf16_units_def)
  have nonce: "fst (randomBytes IV_LENGTH toy_world) = map word_of_nat [0..<12]"
    by (simp add: randomBytes_def toy_world_def IV_LENGTH_def)
  have b0: "byte0 (map word_of_nat [0..<12]) = 0"
    by (simp add: byte0_def upt_conv_Cons)
  have k0: "byte0 toy_key = 7"
    by (simp add: byte0_def toy_key_def numeral_eq_Suc)
  have k32: "length toy_key = 32"
    by (simp add: toy_key_def)
  have gcm: "gcm_encrypt toy_utf8 toy_key (map word_of_nat [0..<12]) [0xEF, 0xBF, 0xBD]
      = Some ([0xF6, 0xC6, 0xC4], replicate 16 0x87)"
    by (simp add: toy_utf8_def toy_def toy_gcm_encrypt_def toy_tag_def b0 k0 k32 Let_def)
  have ungcm: "gcm_decrypt toy_utf8 toy_key (map word_of_nat [0..<12]) [0xF6, 0xC6, 0xC4]
        (replicate 16 0x87) = Some [0xEF, 0xBF, 0xBD]"
    by (simp add: toy_utf8_def toy_def toy_gcm_decrypt_def toy_tag_def b0 k0 k32)
  have codec: "utf8_encode toy_utf8 = std_utf8_encode" "utf8_decode toy_utf8 = std_utf8_decode"
    by (simp_all add: toy_utf8_def)
  have e: "fst (encryptMessage toy_utf8 [0xD800] toy_key toy_world)
      = Inr (base64_encode toy_utf8 ([0xF6, 0xC6, 0xC4] @ replicate 16 0x87),
             base64_encode toy_utf8 (map word_of_nat [0..<12]))"
    using nonce gcm
    by (simp add: encryptMessage_def split_beta codec enc)
  have d: "decryptMessage toy_utf8
         (base64_encode toy_utf8 ([0xF6, 0xC6, 0xC4] @ replicate 16 0x87))
         (base64_encode toy_utf8 (map word_of_nat [0..<12])) toy_key
     = Inr [0xFFFD]"
    using decrypt_of_encrypted [OF b64, where tag = "replicate 16 0x87"
        and ct = "[0xF6, 0xC6, 0xC4]" and nonce = "map word_of_nat [0..<12]" and k = toy_key]
    by (simp add: TAG_LENGTH_def ungcm codec dec)
  from e d show ?thesis by simp
qed

lemma Buffer_compare_antisym:
  "Buffer_compare a b \<le> 0 \<Longrightarrow> Buffer_compare b a \<le> 0 \<Longrightarrow> a = b"
  by (induction a b rule: Buffer_compare.induct) (auto split: if_splits)

lemma Buffer_compare_total:
  "\<not> Buffer_compare a b \<le> 0 \<Longrightarrow> Buffer_compare b a \<le> 0"
  by (induction a b rule: Buffer_compare.induct) (auto split: if_splits)

lemma salt_order_symmetric:
  "(if Buffer_compare a b \<le> 0 then (a, b) else (b, a))
   = (if Buffer_compare b a \<le> 0 then (b, a) else (a, b))"
  using Buffer_compare_antisym [of a b] Buffer_compare_total [of a b] by auto

text \<open>
  C4. For two identities with well-formed key pairs, on a platform whose ECDH is
  commutative, \<open>deriveSharedSecret\<close> with A's key pair and B's public key and
  \<open>deriveSharedSecret\<close> with B's key pair and A's public key both succeed and return
  the same key, of 32 bytes: the salt is computed from the two public keys in
  \<open>Buffer.compare\<close> order, which does not depend on which of them is the local one.
\<close>

theorem deriveSharedSecret_symmetric:
  assumes ecdh: "ecdh_commutative pf"
    and len: "pbkdf2_length pf"
    and A: "valid_identity pf A"
    and B: "valid_identity pf B"
  shows "\<exists>k. deriveSharedSecret pf A (publicKey B) = Inr k
           \<and> deriveSharedSecret pf B (publicKey A) = Inr k
           \<and> length k = KEY_LENGTH"
proof -
  let ?a = "base64_decode pf (publicKey A)" and ?b = "base64_decode pf (publicKey B)"
  let ?x = "base64_decode pf (privateKey A)" and ?y = "base64_decode pf (privateKey B)"
  from A B have pa: "ecdh_public pf ?x = Some ?a" and pb: "ecdh_public pf ?y = Some ?b"
    by (simp_all add: valid_identity_def)
  with ecdh obtain ss where
    s1: "ecdh_computeSecret pf ?x ?b = Some ss" and s2: "ecdh_computeSecret pf ?y ?a = Some ss"
    unfolding ecdh_commutative_def by (metis option.exhaust)
  let ?k = "pbkdf2Sync pf ss
      (Buffer_slice (sha256 pf (case (if Buffer_compare ?a ?b \<le> 0 then (?a, ?b) else (?b, ?a))
          of (first, second) \<Rightarrow> first @ second)) 0 (int SALT_LENGTH))
      PBKDF2_ITERATIONS KEY_LENGTH"
  have d1: "deriveSharedSecret pf A (publicKey B) = Inr ?k"
    by (simp add: deriveSharedSecret_def s1 Let_def split: prod.splits)
  have d2: "deriveSharedSecret pf B (publicKey A) = Inr ?k"
    using salt_order_symmetric [of ?b ?a]
    by (simp add: deriveSharedSecret_def s2 Let_def split: prod.splits)
  have "length ?k = KEY_LENGTH"
    using len by (simp add: pbkdf2_length_def)
  with d1 d2 show ?thesis by blast
qed


theorem deriveSharedSecret_symmetric_witness:
  "\<exists>k. deriveSharedSecret toy alice (publicKey bob) = Inr k
      \<and> deriveSharedSecret toy bob (publicKey alice) = Inr k
      \<and> length k = KEY_LENGTH"
  unfolding alice_def bob_def
  by (rule deriveSharedSecret_symmetric
      [OF toy_ecdh_commutative toy_pbkdf2_length toy_user_valid toy_user_valid])

lemma sorted_ids_sym: "sorted_ids a b = sorted_ids b a"
  by (auto simp: sorted_ids_def)

text \<open>
  C6. The session id that \<open>startSession\<close> computes for two users is the smaller of
  the two user ids in lexicographic order, a hyphen, and the larger one; it is the same
  for both orders of the arguments.
\<close>

theorem sessionId_order_independent:
  "sessionId a b = sessionId b a
   \<and> sessionId a b = min (id_user a) (id_user b) @ ''-'' @ max (id_user a) (id_user b)
   \<and> (\<forall>s. startSession pf a b = Inr s \<longrightarrow> id_session s = sessionId a b)"
  by (auto simp: sessionId_def sorted_ids_def Let_def min_def max_def startSession_def
      initialize_def new_ChatSession_def split: sum.splits)

theorem sessionId_order_independent_witness:
  "\<exists>s. startSession toy alice bob = Inr s \<and> id_session s = ''alice-bob''
      \<and> sessionId bob alice = ''alice-bob''"
proof -
  have s: "startSession toy alice bob = Inr alice_bob_session"
    by (simp add: startSession_def alice_bob_session_def initialize_def new_ChatSession_def
        deriveSharedSecret_def toy_def toy_computeSecret_def Let_def)
  have v: "sessionId bob alice = ''alice-bob''"
    by (simp add: sessionId_def sorted_ids_def alice_def bob_def toy_user_def Let_def)
  from sessionId_order_independent [of alice bob toy] s v show ?thesis by auto
qed

section \<open>What \<open>decryptMessage\<close> accepts\<close>

text \<open>
  \<open>decryptMessage\<close> takes the last 16 bytes of the decoded buffer as the tag and the
  bytes before them as the ciphertext, and does not look at the length of the buffer:
  a buffer of at most 16 bytes goes to the cipher whole, as the tag of the empty
  ciphertext. The decipher is created without the \<open>authTagLength\<close> option, so the
  length of the tag is not fixed there either.
\<close>

lemma slice_short_tag:
  "length b \<le> TAG_LENGTH \<Longrightarrow> Buffer_slice_from b (- int TAG_LENGTH) = b"
  by (simp add: Buffer_slice_from_def Buffer_slice_def slice_index_def Let_def TAG_LENGTH_def)

lemma slice_short_ciphertext:
  "length b \<le> TAG_LENGTH \<Longrightarrow> Buffer_slice b 0 (- int TAG_LENGTH) = []"
  by (simp add: Buffer_slice_def slice_index_def Let_def TAG_LENGTH_def)

lemma decryptMessage_short_buffer:
  assumes "length (base64_decode pf c) \<le> TAG_LENGTH"
  shows "decryptMessage pf c i K =
     (case gcm_decrypt pf K (base64_decode pf i) [] (base64_decode pf c) of
        None \<Rightarrow> Inl CryptoFault
      | Some d \<Rightarrow> Inr (utf8_decode pf d))"
  using assms
  by (simp add: decryptMessage_def Let_def slice_short_tag slice_short_ciphertext)

lemma slice_split:
  "Buffer_slice b 0 (- int TAG_LENGTH) @ Buffer_slice_from b (- int TAG_LENGTH) = b"
  by (simp add: Buffer_slice_from_def Buffer_slice_def slice_index_def Let_def TAG_LENGTH_def)

text \<open>
  Every ciphertext text that \<open>encryptMessage\<close> returns decodes to at least 16 bytes,
  when the cipher yields tags of 16 bytes.
\<close>

lemma encryptMessage_output_length:
  assumes "base64_roundtrip pf" and "aead_correct pf" and "length K = KEY_LENGTH"
    and "fst (encryptMessage pf P K w) = Inr (c, i)"
  shows "TAG_LENGTH \<le> length (base64_decode pf c)"
proof -
  obtain nonce w1 where rb: "randomBytes IV_LENGTH w = (nonce, w1)"
    by (cases "randomBytes IV_LENGTH w")
  have "length nonce = IV_LENGTH"
    using length_randomBytes [of IV_LENGTH w] rb by simp
  with assms(2,3) obtain ct tag where
    enc: "gcm_encrypt pf K nonce (utf8_encode pf P) = Some (ct, tag)"
    and tag: "length tag = TAG_LENGTH"
    unfolding aead_correct_def by blast
  have "c = base64_encode pf (ct @ tag)"
    using assms(4) by (simp add: encryptMessage_def rb enc)
  then show ?thesis
    using assms(1) tag by (simp add: base64_roundtrip_def)
qed

text \<open>
  If the cipher accepts only what it produces, with a tag of full length, then
  \<open>decryptMessage\<close> under the key \<open>K\<close> returns a text only for a buffer that is a
  ciphertext followed by its tag, both produced by the cipher under \<open>K\<close> and the decoded
  iv for the bytes of the text returned; for every other buffer it raises the fault.
\<close>

lemma decryptMessage_accepts_cipher_output:
  assumes "aead_authentic pf"
    and "decryptMessage pf c i K = Inr p"
  shows "\<exists>ct tag pt. base64_decode pf c = ct @ tag \<and> length tag = TAG_LENGTH
           \<and> gcm_encrypt pf K (base64_decode pf i) pt = Some (ct, tag)
           \<and> p = utf8_decode pf pt"
proof -
  let ?b = "base64_decode pf c"
  let ?ct = "Buffer_slice ?b 0 (- int TAG_LENGTH)"
  let ?tag = "Buffer_slice_from ?b (- int TAG_LENGTH)"
  obtain pt where dec: "gcm_decrypt pf K (base64_decode pf i) ?ct ?tag = Some pt"
    and p: "p = utf8_decode pf pt"
    using assms(2) by (auto simp: decryptMessage_def Let_def split: option.splits)
  have "gcm_encrypt pf K (base64_decode pf i) pt = Some (?ct, ?tag) \<and> length ?tag = TAG_LENGTH"
    using assms(1) dec unfolding aead_authentic_def by blast
  then show ?thesis
    using p slice_split [of ?b] by metis
qed

lemma decryptMessage_rejects_other_buffers:
  assumes "aead_authentic pf"
    and "\<not> (\<exists>ct tag pt. base64_decode pf c = ct @ tag \<and> length tag = TAG_LENGTH
              \<and> gcm_encrypt pf K (base64_decode pf i) pt = Some (ct, tag))"
  shows "decryptMessage pf c i K = Inl CryptoFault"
proof (cases "decryptMessage pf c i K")
  case (Inl f)
  then show ?thesis
    by (auto simp: decryptMessage_def Let_def split: option.splits)
next
  case (Inr p)
  then show ?thesis
    using decryptMessage_accepts_cipher_output [OF assms(1) Inr] assms(2) by blast
qed

lemma toy_aead_authentic: "aead_authentic toy"
  by (auto simp: aead_authentic_def toy_def toy_gcm_encrypt_def toy_gcm_decrypt_def
      toy_tag_def TAG_LENGTH_def Let_def o_def)

text \<open>
  The decipher of the platform, created without \<open>authTagLength\<close>, accepts shorter tags,
  and the platform \<open>toy_short_tags\<close> has a cipher that does: base64 decoding inverts
  encoding there, and the cipher decrypts what it encrypted and yields tags of 16
  bytes.
\<close>

lemma toy_short_tags_base64_roundtrip: "base64_roundtrip toy_short_tags"
  by (simp add: base64_roundtrip_def toy_short_tags_def toy_def)

lemma toy_short_tags_aead_correct: "aead_correct toy_short_tags"
  by (simp add: aead_correct_def toy_short_tags_def toy_def toy_gcm_encrypt_def
      toy_gcm_decrypt_short_def gcm_tag_lengths_def
      KEY_LENGTH_def TAG_LENGTH_def toy_tag_def Let_def o_def)

lemma toy_short_tags_outputs:
  assumes "length K = KEY_LENGTH"
    and "fst (encryptMessage toy_short_tags P K w) = Inr (c, i)"
  shows "c \<noteq> base64_encode toy_short_tags (replicate 4 7)"
proof
  assume "c = base64_encode toy_short_tags (replicate 4 7)"
  then have "length (base64_decode toy_short_tags c) = 4"
    using toy_short_tags_base64_roundtrip by (simp add: base64_roundtrip_def)
  then show False
    using encryptMessage_output_length [OF toy_short_tags_base64_roundtrip
        toy_short_tags_aead_correct assms]
    by (simp add: TAG_LENGTH_def)
qed

text \<open>
  C3 fails for a truncated ciphertext. One call of \<open>encryptMessage\<close> on the empty
  plaintext under the key \<open>K\<close> returns the base64 text of 16 bytes, the tag of the empty
  ciphertext, and an iv. The base64 text of the first 4 of these bytes is not what
  \<open>encryptMessage\<close> returned, and no call of \<open>encryptMessage\<close> returns a text that
  decodes to fewer than 16 bytes; \<open>decryptMessage\<close> hands the 4 bytes to the cipher as
  the tag of the empty ciphertext and, the cipher accepting a tag of that length,
  returns the empty text where a fault is due. The platform on which the cipher
  compares tags of 16 bytes only raises the fault for the same input.
\<close>

theorem decryptMessage_accepts_truncated_tag:
  "fst (encryptMessage toy_short_tags [] toy_key toy_world)
     = Inr (base64_encode toy_short_tags (replicate 16 7),
            base64_encode toy_short_tags (map word_of_nat [0..<12]))
   \<and> base64_encode toy_short_tags (replicate 4 7)
       \<noteq> base64_encode toy_short_tags (replicate 16 7)
   \<and> base64_decode toy_short_tags (base64_encode toy_short_tags (replicate 4 7))
       = take 4 (base64_decode toy_short_tags
           (base64_encode toy_short_tags (replicate 16 7)))
   \<and> decryptMessage toy_short_tags (base64_encode toy_short_tags (replicate 4 7))
         (base64_encode toy_short_tags (map word_of_nat [0..<12])) toy_key
       = Inr []
   \<and> decryptMessage toy (base64_encode toy (replicate 4 7))
         (base64_encode toy (map word_of_nat [0..<12])) toy_key
       = Inl CryptoFault"
proof -
  have nonce: "fst (randomBytes IV_LENGTH toy_world) = map word_of_nat [0..<12]"
    by (simp add: randomBytes_def toy_world_def IV_LENGTH_def)
  have b0: "byte0 (map word_of_nat [0..<12]) = 0"
    by (simp add: byte0_def upt_conv_Cons)
  have k0: "byte0 toy_key = 7"
    by (simp add: byte0_def toy_key_def numeral_eq_Suc)
  have k32: "length toy_key = 32"
    by (simp add: toy_key_def)
  have gcm: "gcm_encrypt toy_short_tags toy_key (map word_of_nat [0..<12]) []
      = Some ([], replicate 16 7)"
    by (simp add: toy_short_tags_def toy_def toy_gcm_encrypt_def toy_tag_def b0 k0 k32
        Let_def)
  have utf8: "utf8_encode toy_short_tags [] = []" "utf8_decode toy_short_tags [] = []"
    by (simp_all add: toy_short_tags_def toy_def toy_bytes_def toy_chars_def)
  have e: "fst (encryptMessage toy_short_tags [] toy_key toy_world)
     = Inr (base64_encode toy_short_tags (replicate 16 7),
            base64_encode toy_short_tags (map word_of_nat [0..<12]))"
    using nonce gcm by (simp add: encryptMessage_def split_beta utf8)
  have ne: "base64_encode toy_short_tags (replicate 4 7)
       \<noteq> base64_encode toy_short_tags (replicate 16 7)"
    by (simp add: toy_short_tags_def toy_def toy_chars_def)
  have b64: "base64_decode toy_short_tags (base64_encode toy_short_tags b) = b" for b
    using toy_short_tags_base64_roundtrip by (simp add: base64_roundtrip_def)
  have b64': "base64_decode toy (base64_encode toy b) = b" for b
    using toy_base64_roundtrip by (simp add: base64_roundtrip_def)
  have tk: "base64_decode toy_short_tags (base64_encode toy_short_tags (replicate 4 7))
       = take 4 (base64_decode toy_short_tags
           (base64_encode toy_short_tags (replicate 16 7)))"
    by (simp add: b64)
  have short: "gcm_decrypt toy_short_tags toy_key (map word_of_nat [0..<12]) []
      (replicate 4 7) = Some []"
    by (simp add: toy_short_tags_def toy_gcm_decrypt_short_def gcm_tag_lengths_def
        toy_tag_def b0 k0 k32)
  have full: "gcm_decrypt toy toy_key (map word_of_nat [0..<12]) [] (replicate 4 7) = None"
    by (simp add: toy_def toy_gcm_decrypt_def toy_tag_def b0 k0 k32)
  have d: "decryptMessage toy_short_tags (base64_encode toy_short_tags (replicate 4 7))
         (base64_encode toy_short_tags (map word_of_nat [0..<12])) toy_key
       = Inr []"
    by (simp add: decryptMessage_short_buffer b64 TAG_LENGTH_def short utf8)
  have d': "decryptMessage toy (base64_encode toy (replicate 4 7))
         (base64_encode toy (map word_of_nat [0..<12])) toy_key
       = Inl CryptoFault"
    by (simp add: decryptMessage_short_buffer b64' TAG_LENGTH_def full)
  from e ne tk d d' show ?thesis by simp
qed

section \<open>Properties of the pairwise session\<close>

lemma key_for_encrypt_ready:
  "sharedSecret s = Some k \<Longrightarrow> key_for_encrypt pf s = (Inr k, s)"
  by (simp add: key_for_encrypt_def)

lemma key_for_decrypt_participant:
  "sharedSecret s = Some k \<Longrightarrow>
   id_user u = id_user (userA s) \<or> id_user u = id_user (userB s) \<Longrightarrow>
   key_for_decrypt pf s u = (Inr k, s)"
  by (auto simp add: key_for_decrypt_def)

lemma key_for_decrypt_outsider:
  "sharedSecret s = Some k \<Longrightarrow>
   id_user u \<noteq> id_user (userA s) \<Longrightarrow> id_user u \<noteq> id_user (userB s) \<Longrightarrow>
   key_for_decrypt pf s u =
     (case deriveSharedSecret pf \<lparr>publicKey = publicKey u, privateKey = privateKey u\<rparr>
             (publicKey (userA s)) of
        Inl e \<Rightarrow> (Inl e, s)
      | Inr k' \<Rightarrow> (Inr k', s\<lparr>sharedSecret := Some k'\<rparr>))"
  by (simp add: key_for_decrypt_def initializeForUser_def Let_def split: sum.splits)

lemma encrypt_keeps_session:
  "sharedSecret s = Some k \<Longrightarrow> fst (snd (encrypt pf s p sender w)) = s"
  by (simp add: encrypt_def key_for_encrypt_ready split: prod.splits sum.splits)

lemma encryptMedia_keeps_session:
  "sharedSecret s = Some k \<Longrightarrow> fst (snd (encryptMedia pf s p md sender w)) = s"
  by (simp add: encryptMedia_def key_for_encrypt_ready Let_def split: prod.splits sum.splits)

lemma decrypt_session:
  "snd (decrypt pf s msg u) = snd (key_for_decrypt pf s u)"
  by (simp add: decrypt_def split: prod.splits sum.splits)

lemma decryptMedia_session:
  "snd (decryptMedia pf s msg u) =
     (case media msg of None \<Rightarrow> s | Some md \<Rightarrow> snd (key_for_decrypt pf s u))"
  by (simp add: decryptMedia_def split: prod.splits sum.splits option.splits)

lemma alice_bob_key:
  "sharedSecret alice_bob_session = Some (135 # 15 # 27 # replicate 29 0)"
  by (simp add: alice_bob_session_def initialize_def new_ChatSession_def
      deriveSharedSecret_def alice_def bob_def toy_user_def toy_def toy_computeSecret_def byte0_def
      toy_sha256_def toy_pbkdf2_def Buffer_slice_def slice_index_def SALT_LENGTH_def KEY_LENGTH_def
      PBKDF2_ITERATIONS_def Let_def replicate_add [symmetric])

text \<open>
  C5 (as amended). Once the derived key of a pairwise session has been computed,
  \<open>encrypt\<close> and \<open>encryptMedia\<close> leave it unchanged, and so do \<open>decrypt\<close> and
  \<open>decryptMedia\<close> when the id of the user argument is the id of one of the two
  participants. For a user with another id, \<open>decrypt\<close> derives the key again from
  that user's key pair and the public key of \<open>userA\<close> and stores the result when
  the derivation succeeds.
\<close>

theorem derived_key_stable_for_participants:
  assumes "sharedSecret s = Some k"
  shows "sharedSecret (fst (snd (encrypt pf s p sender w))) = Some k
       \<and> sharedSecret (fst (snd (encryptMedia pf s p md sender w))) = Some k
       \<and> (id_user u = id_user (userA s) \<or> id_user u = id_user (userB s) \<longrightarrow>
            sharedSecret (snd (decrypt pf s msg u)) = Some k
            \<and> sharedSecret (snd (decryptMedia pf s msg u)) = Some k)
       \<and> (id_user u \<noteq> id_user (userA s) \<and> id_user u \<noteq> id_user (userB s) \<longrightarrow>
            sharedSecret (snd (decrypt pf s msg u)) =
              (case deriveSharedSecret pf
                      \<lparr>publicKey = publicKey u, privateKey = privateKey u\<rparr>
                      (publicKey (userA s)) of
                 Inl e \<Rightarrow> Some k
               | Inr k' \<Rightarrow> Some k'))"
  using assms
  by (auto simp add: encrypt_keeps_session encryptMedia_keeps_session decrypt_session
      decryptMedia_session key_for_decrypt_participant key_for_decrypt_outsider
      split: option.splits sum.splits)

theorem derived_key_stable_for_participants_witness:
  "sharedSecret (fst (snd (encrypt toy alice_bob_session (js_of ''hi'') ''alice'' toy_world)))
     = Some (135 # 15 # 27 # replicate 29 0)
   \<and> sharedSecret (snd (decrypt toy alice_bob_session (mk_msg ''m1'') bob))
     = Some (135 # 15 # 27 # replicate 29 0)
   \<and> sharedSecret (snd (decryptMedia toy alice_bob_session (mk_msg ''m1'') bob))
     = Some (135 # 15 # 27 # replicate 29 0)"
proof -
  have ids: "id_user bob = id_user (userB alice_bob_session)"
    by (simp add: alice_bob_session_def initialize_def new_ChatSession_def Let_def
        split: sum.splits)
  show ?thesis
    using derived_key_stable_for_participants [where pf = toy and u = bob
        and p = "js_of ''hi''" and sender = "''alice''" and w = toy_world and md = photo
        and msg = "mk_msg ''m1''", OF alice_bob_key] ids
    by simp
qed

text \<open>
  Against C5 as stated: in the session of alice and bob, whose derived key starts with
  the bytes 135, 15, 27, a call of \<open>decrypt\<close> with the user carol, who is not a
  participant, replaces the key by another one.
\<close>

theorem derived_key_replaced_for_outsider:
  "sharedSecret alice_bob_session = Some (135 # 15 # 27 # replicate 29 0)
   \<and> sharedSecret (snd (decrypt toy alice_bob_session (mk_msg ''m1'') carol))
       = Some (165 # 15 # 33 # replicate 29 0)"
  by (simp add: decrypt_session key_for_decrypt_def initializeForUser_def alice_bob_session_def initialize_def new_ChatSession_def
      deriveSharedSecret_def alice_def bob_def carol_def toy_user_def toy_def toy_computeSecret_def byte0_def
      toy_sha256_def toy_pbkdf2_def Buffer_slice_def slice_index_def SALT_LENGTH_def KEY_LENGTH_def
      PBKDF2_ITERATIONS_def Let_def replicate_add [symmetric])


lemma randomBytes_first: "fst (randomBytes n w) = map (entropy w) [0..<n]"
  by (simp add: randomBytes_def)

lemma map_shift_upt: "map (\<lambda>i. f (i + n)) [0..<m] = map f [n..<n + m]"
  by (induction m) (simp_all add: add.commute)

lemma randomBytes_second:
  "fst (randomBytes n (snd (randomBytes n w))) = map (entropy w) [n..<n + n]"
  by (simp add: randomBytes_def map_shift_upt)

lemma key_for_encrypt_result:
  assumes "key_for_encrypt pf s = (Inr k, s1)"
  shows "sharedSecret s1 = Some k" and "userA s1 = userA s" and "userB s1 = userB s"
  using assms
  by (auto simp add: key_for_encrypt_def initialize_def Let_def
      split: if_splits sum.splits option.splits)

text \<open>
  C2. In a session whose key, computed before or by the call, is \<open>k\<close>,
  \<open>encryptMedia\<close> draws two nonces from the random source, \<open>n1\<close> and then
  \<open>n2\<close>. The caption is encrypted under \<open>n1\<close> and the media payload under \<open>n2\<close>; the envelope stores the base64 of \<open>n1\<close> as its \<open>iv\<close>,
  and no field of the envelope depends on \<open>n2\<close> but the media ciphertext. \<open>decryptMedia\<close> on that envelope hands the cipher the
  nonce \<open>n1\<close> of the \<open>iv\<close> field for the media payload as well as for the caption.
\<close>

theorem encryptMedia_media_nonce_discarded:
  assumes b64: "base64_roundtrip pf"
    and key: "key_for_encrypt pf s = (Inr k, s1)"
    and n1: "n1 = map (entropy w) [0..<IV_LENGTH]"
    and n2: "n2 = map (entropy w) [IV_LENGTH..<IV_LENGTH + IV_LENGTH]"
    and e1: "gcm_encrypt pf k n1 (utf8_encode pf caption) = Some (ct1, tag1)"
    and t1: "length tag1 = TAG_LENGTH"
    and e2: "gcm_encrypt pf k n2 (utf8_encode pf (data md)) = Some (ct2, tag2)"
    and t2: "length tag2 = TAG_LENGTH"
    and u: "id_user u = id_user (userA s) \<or> id_user u = id_user (userB s)"
    and msg: "msg = \<lparr>id_msg = uuids w 0, senderId = sender,
                     receiverId = Some (other_party s sender), groupId = None,
                     ciphertext = base64_encode pf (ct1 @ tag1),
                     iv = base64_encode pf n1,
                     timestamp = clock w, type_msg = media_msg,
                     media = Some (md\<lparr>data := base64_encode pf (ct2 @ tag2)\<rparr>)\<rparr>"
  shows "(\<exists>w'. encryptMedia pf s caption md sender w = (Inr msg, s1, w'))
      \<and> fst (decryptMedia pf s1 msg u) =
          (case gcm_decrypt pf k n1 ct1 tag1 of
             None \<Rightarrow> Inl CryptoFault
           | Some p1 \<Rightarrow>
               (case gcm_decrypt pf k n1 ct2 tag2 of
                  None \<Rightarrow> Inl CryptoFault
                | Some p2 \<Rightarrow> Inr (utf8_decode pf p1, md\<lparr>data := utf8_decode pf p2\<rparr>)))"
proof -
  note k1 = key_for_encrypt_result [OF key]
  have u1: "id_user u = id_user (userA s1) \<or> id_user u = id_user (userB s1)"
    using u k1 by simp
  obtain w1 where r1: "randomBytes IV_LENGTH w = (n1, w1)"
    using randomBytes_first [of IV_LENGTH w] n1 by (cases "randomBytes IV_LENGTH w") simp
  obtain w2 where r2: "randomBytes IV_LENGTH w1 = (n2, w2)"
    using randomBytes_second [of IV_LENGTH w] n2 r1 by (cases "randomBytes IV_LENGTH w1") simp
  have m1: "encryptMessage pf caption k w =
      (Inr (base64_encode pf (ct1 @ tag1), base64_encode pf n1), w1)"
    by (simp add: encryptMessage_def r1 e1)
  have m2: "encryptMessage pf (data md) k w1 =
      (Inr (base64_encode pf (ct2 @ tag2), base64_encode pf n2), w2)"
    by (simp add: encryptMessage_def r2 e2)
  have w2: "uuids w2 = uuids w" "clock w2 = clock w"
    using r1 r2 by (auto simp add: randomBytes_def)
  have op: "other_party s1 sender = other_party s sender"
    using k1 by (simp add: other_party_def)
  have enc: "encryptMedia pf s caption md sender w = (Inr msg, s1, snd (generateUUID w2))"
    by (simp add: encryptMedia_def key m1 m2 msg op w2 generateUUID_def Date_now_def Let_def)
  have dec: "fst (decryptMedia pf s1 msg u) =
      (case gcm_decrypt pf k n1 ct1 tag1 of
         None \<Rightarrow> Inl CryptoFault
       | Some p1 \<Rightarrow>
           (case gcm_decrypt pf k n1 ct2 tag2 of
              None \<Rightarrow> Inl CryptoFault
            | Some p2 \<Rightarrow> Inr (utf8_decode pf p1, md\<lparr>data := utf8_decode pf p2\<rparr>)))"
    by (simp add: msg decryptMedia_def key_for_decrypt_participant [OF k1(1) u1]
        decrypt_of_encrypted [OF b64 t1] decrypt_of_encrypted [OF b64 t2]
        split: option.splits)
  from enc dec show ?thesis by blast
qed

theorem encryptMedia_media_nonce_discarded_witness:
  "(\<exists>w'. encryptMedia toy (new_ChatSession ''alice-bob'' alice bob) (js_of ''hi'') photo ''alice''
          toy_world
        = (Inr \<lparr>id_msg = ''u'', senderId = ''alice'', receiverId = Some ''bob'',
                 groupId = None,
                 ciphertext = base64_encode toy ([239, 240] @ replicate 16 102),
                 iv = base64_encode toy (map word_of_nat [0..<12]),
                 timestamp = 1700000000000, type_msg = media_msg,
                 media = Some (photo\<lparr>data := base64_encode toy ([3, 11] @ replicate 16 161)\<rparr>)\<rparr>,
           alice_bob_session, w'))
   \<and> fst (decryptMedia toy alice_bob_session
        \<lparr>id_msg = ''u'', senderId = ''alice'', receiverId = Some ''bob'',
         groupId = None,
         ciphertext = base64_encode toy ([239, 240] @ replicate 16 102),
         iv = base64_encode toy (map word_of_nat [0..<12]),
         timestamp = 1700000000000, type_msg = media_msg,
         media = Some (photo\<lparr>data := base64_encode toy ([3, 11] @ replicate 16 161)\<rparr>)\<rparr>
        bob) = Inl CryptoFault
   \<and> fst (decrypt toy alice_bob_session
        \<lparr>id_msg = ''u'', senderId = ''alice'', receiverId = Some ''bob'',
         groupId = None,
         ciphertext = base64_encode toy ([239, 240] @ replicate 16 102),
         iv = base64_encode toy (map word_of_nat [0..<12]),
         timestamp = 1700000000000, type_msg = media_msg,
         media = Some (photo\<lparr>data := base64_encode toy ([3, 11] @ replicate 16 161)\<rparr>)\<rparr>
        bob) = Inr (js_of ''hi'')"
proof -
  let ?k = "135 # 15 # 27 # replicate 29 (0::byte)"
  let ?n1 = "map word_of_nat [0..<12] :: Buffer"
  let ?n2 = "map (entropy toy_world) [IV_LENGTH..<IV_LENGTH + IV_LENGTH]"
  let ?s0 = "new_ChatSession ''alice-bob'' alice bob"
  have e1: "gcm_encrypt toy ?k ?n1 (utf8_encode toy (js_of ''hi'')) = Some ([239, 240], replicate 16 102)"
    by (simp add: toy_def toy_gcm_encrypt_def toy_tag_def toy_bytes_def js_of_def byte0_def
        toy_world_def IV_LENGTH_def upt_rec)
  have e2: "gcm_encrypt toy ?k ?n2 (utf8_encode toy (data photo)) = Some ([3, 11], replicate 16 161)"
    by (simp add: toy_def toy_gcm_encrypt_def toy_tag_def toy_bytes_def js_of_def byte0_def
        toy_world_def IV_LENGTH_def photo_def upt_rec)
  have d1: "gcm_decrypt toy ?k ?n1 [239, 240] (replicate 16 102) = Some (utf8_encode toy (js_of ''hi''))"
    by (simp add: toy_def toy_gcm_decrypt_def toy_tag_def toy_bytes_def js_of_def byte0_def
        toy_world_def IV_LENGTH_def upt_rec)
  have d2: "gcm_decrypt toy ?k ?n1 [3, 11] (replicate 16 161) = None"
    by (simp add: toy_def toy_gcm_decrypt_def toy_tag_def toy_bytes_def js_of_def byte0_def
        toy_world_def IV_LENGTH_def upt_rec)
  have n1: "?n1 = map (entropy toy_world) [0..<IV_LENGTH]"
    by (simp add: toy_world_def IV_LENGTH_def)
  have sid: "sessionId alice bob = ''alice-bob''"
    by (simp add: sessionId_def sorted_ids_def alice_def bob_def toy_user_def Let_def)
  have u0: "id_user bob = id_user (userA ?s0) \<or> id_user bob = id_user (userB ?s0)"
    by (simp add: new_ChatSession_def)
  have init: "initialize toy ?s0 = (Inr (), alice_bob_session)"
    by (simp add: alice_bob_session_def sid initialize_def deriveSharedSecret_def toy_def
        toy_computeSecret_def Let_def)
  have k0: "key_for_encrypt toy ?s0 = (Inr ?k, alice_bob_session)"
    using alice_bob_key by (simp add: key_for_encrypt_def init) (simp add: new_ChatSession_def)
  have env: "uuids toy_world 0 = ''u''" "clock toy_world = 1700000000000"
    "other_party ?s0 ''alice'' = ''bob''"
    by (simp_all add: toy_world_def other_party_def new_ChatSession_def alice_def bob_def
        toy_user_def)
  have u: "id_user bob = id_user (userA alice_bob_session)
      \<or> id_user bob = id_user (userB alice_bob_session)"
    by (simp add: alice_bob_session_def initialize_def new_ChatSession_def Let_def
        split: sum.splits)
  have rt: "utf8_decode toy (utf8_encode toy (js_of ''hi'')) = (js_of ''hi'')"
    by (simp add: toy_def)
  have cap: "decryptMessage toy (base64_encode toy ([239, 240] @ replicate 16 102))
      (base64_encode toy ?n1) ?k = Inr (js_of ''hi'')"
    using decrypt_of_encrypted [OF toy_base64_roundtrip, of "replicate 16 102" "[239, 240]" ?n1 ?k]
    by (simp add: d1 rt TAG_LENGTH_def)
  show ?thesis
    using encryptMedia_media_nonce_discarded [OF toy_base64_roundtrip k0 n1 refl
        e1 _ e2 _ u0 refl, of "''alice''"] cap
    by (simp add: TAG_LENGTH_def d1 d2 env decrypt_def
        key_for_decrypt_participant [OF alice_bob_key u])
qed

section \<open>Properties of the connection manager\<close>

lemma fst_run_Cons: "fst (run c (ev # evs)) = fst (run (fst (step c ev)) evs)"
  by (simp add: split_beta)

lemma snd_run_Cons:
  "snd (run c (ev # evs)) = snd (step c ev) @ snd (run (fst (step c ev)) evs)"
  by (simp add: split_beta)

lemma fst_run_append: "fst (run c (xs @ ys)) = fst (run (fst (run c xs)) ys)"
  by (induction xs arbitrary: c) (simp_all add: split_beta)

lemma snd_run_append:
  "snd (run c (xs @ ys)) = snd (run c xs) @ snd (run (fst (run c xs)) ys)"
  by (induction xs arbitrary: c) (simp_all add: split_beta)

lemma step_noise:
  "failure_noise ev \<Longrightarrow> fst (step c ev) = c \<and> filter is_schedule (snd (step c ev)) = []"
  by (cases ev) (simp_all add: onerror_def connectionTimeout_def)

lemma run_noise:
  "list_all failure_noise evs \<Longrightarrow>
     fst (run c evs) = c \<and> filter is_schedule (snd (run c evs)) = []"
  by (induction evs) (simp_all add: split_beta step_noise)

lemma onclose_reschedules:
  assumes "connectionState c \<noteq> DISCONNECTED" and "shouldReconnect c"
    and "reconnectAttempts c < RECONNECT_MAX_ATTEMPTS"
  shows "connectionState (fst (onclose c)) = RECONNECTING"
    and "reconnectTimer (fst (onclose c))"
    and "shouldReconnect (fst (onclose c))"
    and "reconnectAttempts (fst (onclose c)) = Suc (reconnectAttempts c)"
    and "filter is_schedule (snd (onclose c))
           = [ReconnectScheduled (backoff_delay (Suc (reconnectAttempts c)))]"
  using assms
  by (simp_all add: onclose_def stopHeartbeat_def updateState_def scheduleReconnect_def
      clearReconnectTimer_def Let_def)

lemma onclose_gives_up:
  assumes "connectionState c \<noteq> DISCONNECTED"
    and "RECONNECT_MAX_ATTEMPTS \<le> reconnectAttempts c"
  shows "connectionState (fst (onclose c)) = FAILED_conn"
    and "reconnectTimer (fst (onclose c)) = reconnectTimer c"
    and "reconnectAttempts (fst (onclose c)) = reconnectAttempts c"
    and "filter is_schedule (snd (onclose c)) = []"
  using assms
  by (simp_all add: onclose_def stopHeartbeat_def updateState_def Let_def)

lemma timer_fired_connects:
  assumes "connectionState c = RECONNECTING" and "reconnectTimer c"
  shows "connectionState (fst (reconnectTimerFired c True)) = CONNECTING"
    and "\<not> reconnectTimer (fst (reconnectTimerFired c True))"
    and "shouldReconnect (fst (reconnectTimerFired c True)) = shouldReconnect c"
    and "reconnectAttempts (fst (reconnectTimerFired c True)) = reconnectAttempts c"
    and "filter is_schedule (snd (reconnectTimerFired c True)) = []"
  using assms
  by (simp_all add: reconnectTimerFired_def doConnect_def updateState_def Let_def)

lemma fst_run_failed_attempt:
  assumes "list_all failure_noise noise"
  shows "fst (run c (failed_attempt noise)) = fst (onclose (fst (reconnectTimerFired c True)))"
  using run_noise [OF assms, of "fst (reconnectTimerFired c True)"]
  by (simp add: failed_attempt_def fst_run_append split_beta)

lemma snd_run_failed_attempt:
  assumes "list_all failure_noise noise"
  shows "filter is_schedule (snd (run c (failed_attempt noise))) =
     filter is_schedule (snd (reconnectTimerFired c True))
       @ filter is_schedule (snd (onclose (fst (reconnectTimerFired c True))))"
  using run_noise [OF assms, of "fst (reconnectTimerFired c True)"]
  by (simp add: failed_attempt_def snd_run_append split_beta)

lemma failed_attempt_retries:
  assumes "awaiting_retry n c" and "n < RECONNECT_MAX_ATTEMPTS"
    and "list_all failure_noise noise"
  shows "awaiting_retry (Suc n) (fst (run c (failed_attempt noise)))"
    and "filter is_schedule (snd (run c (failed_attempt noise)))
           = [ReconnectScheduled (backoff_delay (Suc n))]"
proof -
  let ?c1 = "fst (reconnectTimerFired c True)"
  from assms(1) have r: "connectionState c = RECONNECTING" "reconnectTimer c"
    "shouldReconnect c" "reconnectAttempts c = n"
    by (simp_all add: awaiting_retry_def)
  note t = timer_fired_connects [OF r(1,2)]
  have c1: "connectionState ?c1 \<noteq> DISCONNECTED" "shouldReconnect ?c1"
    "reconnectAttempts ?c1 < RECONNECT_MAX_ATTEMPTS"
    using t r assms(2) by simp_all
  note o = onclose_reschedules [OF c1]
  show "awaiting_retry (Suc n) (fst (run c (failed_attempt noise)))"
    using o t r by (simp add: awaiting_retry_def fst_run_failed_attempt [OF assms(3)])
  show "filter is_schedule (snd (run c (failed_attempt noise)))
           = [ReconnectScheduled (backoff_delay (Suc n))]"
    using o t r by (simp add: snd_run_failed_attempt [OF assms(3)])
qed

lemma failed_attempt_gives_up:
  assumes "awaiting_retry n c" and "RECONNECT_MAX_ATTEMPTS \<le> n"
    and "list_all failure_noise noise"
  shows "connectionState (fst (run c (failed_attempt noise))) = FAILED_conn"
    and "\<not> reconnectTimer (fst (run c (failed_attempt noise)))"
    and "reconnectAttempts (fst (run c (failed_attempt noise))) = n"
    and "filter is_schedule (snd (run c (failed_attempt noise))) = []"
proof -
  let ?c1 = "fst (reconnectTimerFired c True)"
  from assms(1) have r: "connectionState c = RECONNECTING" "reconnectTimer c"
    "shouldReconnect c" "reconnectAttempts c = n"
    by (simp_all add: awaiting_retry_def)
  note t = timer_fired_connects [OF r(1,2)]
  have c1: "connectionState ?c1 \<noteq> DISCONNECTED"
    "RECONNECT_MAX_ATTEMPTS \<le> reconnectAttempts ?c1"
    using t r assms(2) by simp_all
  note o = onclose_gives_up [OF c1]
  show "connectionState (fst (run c (failed_attempt noise))) = FAILED_conn"
    and "\<not> reconnectTimer (fst (run c (failed_attempt noise)))"
    and "reconnectAttempts (fst (run c (failed_attempt noise))) = n"
    using o t r by (simp_all add: fst_run_failed_attempt [OF assms(3)])
  show "filter is_schedule (snd (run c (failed_attempt noise))) = []"
    using o t by (simp add: snd_run_failed_attempt [OF assms(3)])
qed

lemma step_unattended_given_up:
  assumes "unattended ev" and "given_up c"
  shows "given_up (fst (step c ev))"
  using assms
  by (cases ev; simp add: given_up_def onerror_def connectionTimeout_def
      reconnectTimerFired_def onclose_def updateState_def stopHeartbeat_def Let_def)

lemma run_unattended_given_up:
  "list_all unattended evs \<Longrightarrow> given_up c \<Longrightarrow> given_up (fst (run c evs))"
  by (induction evs arbitrary: c) (simp_all add: split_beta step_unattended_given_up)

lemma no_schedule_updateState [simp]: "ReconnectScheduled d \<notin> set (snd (updateState c st))"
  by (simp add: updateState_def)

lemma no_schedule_doConnect [simp]: "ReconnectScheduled d \<notin> set (snd (doConnect c ok))"
  by (simp add: doConnect_def split_beta)

lemma no_schedule_disconnect [simp]: "ReconnectScheduled d \<notin> set (snd (disconnect c))"
  by (simp add: disconnect_def split_beta Let_def)

lemma no_schedule_reconnect [simp]: "ReconnectScheduled d \<notin> set (snd (reconnect c ok))"
  by (simp add: reconnect_def split_beta Let_def split: option.splits)

lemma no_schedule_onopen [simp]: "ReconnectScheduled d \<notin> set (snd (onopen c))"
  by (simp add: onopen_def split_beta Let_def)

lemma no_schedule_timer [simp]: "ReconnectScheduled d \<notin> set (snd (reconnectTimerFired c ok))"
  by (simp add: reconnectTimerFired_def)

lemma no_schedule_timeout [simp]: "ReconnectScheduled d \<notin> set (snd (connectionTimeout c))"
  by (simp add: connectionTimeout_def)

lemma schedule_in_onclose:
  "ReconnectScheduled d \<in> set (snd (onclose c)) \<Longrightarrow>
     reconnectAttempts c < RECONNECT_MAX_ATTEMPTS \<and> shouldReconnect c"
  by (simp add: onclose_def split_beta Let_def stopHeartbeat_def updateState_def
      split: if_splits)

lemma schedule_only_below_ceiling:
  assumes "ReconnectScheduled d \<in> set (snd (step c ev))"
  shows "ev = SocketClose \<and> reconnectAttempts c < RECONNECT_MAX_ATTEMPTS \<and> shouldReconnect c"
  using assms
  by (cases ev) (simp_all add: connect_def onerror_def schedule_in_onclose)

text \<open>
  Once the counter has reached the ceiling, nothing schedules a reconnect until a
  socket opens or \<open>reconnect\<close> is called.
\<close>

lemma no_schedule_iff:
  "filter is_schedule es = [] \<longleftrightarrow> (\<forall>d. ReconnectScheduled d \<notin> set es)"
proof (induction es)
  case Nil
  then show ?case by simp
next
  case (Cons e es)
  then show ?case by (cases e) auto
qed

lemma step_at_ceiling:
  assumes "keeps_counter ev" and "RECONNECT_MAX_ATTEMPTS \<le> reconnectAttempts c"
  shows "RECONNECT_MAX_ATTEMPTS \<le> reconnectAttempts (fst (step c ev))"
    and "filter is_schedule (snd (step c ev)) = []"
proof -
  show "RECONNECT_MAX_ATTEMPTS \<le> reconnectAttempts (fst (step c ev))"
    using assms
    by (cases ev; simp add: connect_def disconnect_def onerror_def connectionTimeout_def
        reconnectTimerFired_def doConnect_def onclose_def updateState_def stopHeartbeat_def
        clearReconnectTimer_def Let_def split_beta)
  have "\<forall>d. ReconnectScheduled d \<notin> set (snd (step c ev))"
    using schedule_only_below_ceiling [of _ c ev] assms(2) by auto
  then show "filter is_schedule (snd (step c ev)) = []"
    by (simp add: no_schedule_iff)
qed

lemma run_at_ceiling:
  "list_all keeps_counter evs \<Longrightarrow> RECONNECT_MAX_ATTEMPTS \<le> reconnectAttempts c \<Longrightarrow>
     RECONNECT_MAX_ATTEMPTS \<le> reconnectAttempts (fst (run c evs))
     \<and> filter is_schedule (snd (run c evs)) = []"
  by (induction evs arbitrary: c) (simp_all add: split_beta step_at_ceiling)

lemmas backoff_delays = backoff_delay_def RECONNECT_BASE_DELAY_def RECONNECT_MAX_DELAY_def

lemma five_failures_give_up:
  assumes c: "awaiting_retry 1 c"
    and n: "list_all failure_noise n1" "list_all failure_noise n2" "list_all failure_noise n3"
      "list_all failure_noise n4" "list_all failure_noise n5"
  shows "given_up (fst (run c (five_failures n1 n2 n3 n4 n5)))"
    and "reconnectAttempts (fst (run c (five_failures n1 n2 n3 n4 n5))) = 5"
    and "filter is_schedule (snd (run c (five_failures n1 n2 n3 n4 n5)))
           = map ReconnectScheduled [2000, 4000, 8000, 16000]"
proof -
  let ?c2 = "fst (run c (failed_attempt n1))"
  let ?c3 = "fst (run ?c2 (failed_attempt n2))"
  let ?c4 = "fst (run ?c3 (failed_attempt n3))"
  let ?c5 = "fst (run ?c4 (failed_attempt n4))"
  let ?c6 = "fst (run ?c5 (failed_attempt n5))"
  have lt: "1 < RECONNECT_MAX_ATTEMPTS" "2 < RECONNECT_MAX_ATTEMPTS"
    "3 < RECONNECT_MAX_ATTEMPTS" "4 < RECONNECT_MAX_ATTEMPTS" "RECONNECT_MAX_ATTEMPTS \<le> 5"
    by (simp_all add: RECONNECT_MAX_ATTEMPTS_def)
  have a2: "awaiting_retry 2 ?c2"
    and s2: "filter is_schedule (snd (run c (failed_attempt n1))) = [ReconnectScheduled 2000]"
    using failed_attempt_retries [OF c lt(1) n(1)]
    by (simp_all add: backoff_delays numeral_2_eq_2)
  have a3: "awaiting_retry 3 ?c3"
    and s3: "filter is_schedule (snd (run ?c2 (failed_attempt n2))) = [ReconnectScheduled 4000]"
    using failed_attempt_retries [OF a2 lt(2) n(2)] by (simp_all add: backoff_delays)
  have a4: "awaiting_retry 4 ?c4"
    and s4: "filter is_schedule (snd (run ?c3 (failed_attempt n3))) = [ReconnectScheduled 8000]"
    using failed_attempt_retries [OF a3 lt(3) n(3)]
    by (simp_all add: backoff_delays)
  have a5: "awaiting_retry 5 ?c5"
    and s5: "filter is_schedule (snd (run ?c4 (failed_attempt n4))) = [ReconnectScheduled 16000]"
    using failed_attempt_retries [OF a4 lt(4) n(4)]
    by (simp_all add: backoff_delays)
  note g = failed_attempt_gives_up [OF a5 lt(5) n(5)]
  have f: "fst (run c (five_failures n1 n2 n3 n4 n5)) = ?c6"
    by (simp add: five_failures_def fst_run_append)
  show "given_up (fst (run c (five_failures n1 n2 n3 n4 n5)))"
    using g by (simp add: f given_up_def RECONNECT_MAX_ATTEMPTS_def)
  show "reconnectAttempts (fst (run c (five_failures n1 n2 n3 n4 n5))) = 5"
    using g by (simp add: f)
  show "filter is_schedule (snd (run c (five_failures n1 n2 n3 n4 n5)))
           = map ReconnectScheduled [2000, 4000, 8000, 16000]"
    using g(4) s2 s3 s4 s5 by (simp add: five_failures_def snd_run_append fst_run_append)
qed

text \<open>
  C9. Take a client that is not disconnected, with reconnection enabled and the
  attempt counter at zero. Its socket closes, and then five automatic reconnect
  attempts in a row fail. Then the state is \<open>failed\<close>, no reconnect timer is pending
  and the counter is 5; the five reconnects were scheduled with the backoff delays
  1000, 2000, 4000, 8000 and 16000 ms. From there on, whatever timers fire and
  whatever sockets report, short of a socket opening or a call of the client's
  interface, the state stays \<open>failed\<close>; and no reconnect is scheduled by any
  sequence of events in which no socket opens and \<open>reconnect\<close> is not called. In
  any state, a reconnect is scheduled only by the close handler and only while the
  counter is below 5.
\<close>

theorem five_failed_reconnects_give_up:
  assumes start: "connectionState c \<noteq> DISCONNECTED" "shouldReconnect c" "reconnectAttempts c = 0"
    and noise: "list_all failure_noise n1" "list_all failure_noise n2"
      "list_all failure_noise n3" "list_all failure_noise n4" "list_all failure_noise n5"
    and c5: "c5 = fst (run c (SocketClose # five_failures n1 n2 n3 n4 n5))"
    and later: "list_all unattended evs"
    and later': "list_all keeps_counter evs'"
  shows "connectionState c5 = FAILED_conn \<and> \<not> reconnectTimer c5 \<and> reconnectAttempts c5 = 5
       \<and> filter is_schedule (snd (run c (SocketClose # five_failures n1 n2 n3 n4 n5)))
           = map ReconnectScheduled [1000, 2000, 4000, 8000, 16000]
       \<and> connectionState (fst (run c5 evs)) = FAILED_conn
       \<and> \<not> reconnectTimer (fst (run c5 evs))
       \<and> filter is_schedule (snd (run c5 evs')) = []
       \<and> (\<forall>c0 ev d. ReconnectScheduled d \<in> set (snd (step c0 ev)) \<longrightarrow>
             ev = SocketClose \<and> reconnectAttempts c0 < RECONNECT_MAX_ATTEMPTS)"
proof -
  let ?c1 = "fst (onclose c)"
  have lt: "reconnectAttempts c < RECONNECT_MAX_ATTEMPTS"
    using start(3) by (simp add: RECONNECT_MAX_ATTEMPTS_def)
  note o = onclose_reschedules [OF start(1,2) lt]
  have a1: "awaiting_retry 1 ?c1"
    using o start(3) by (simp add: awaiting_retry_def)
  note f = five_failures_give_up [OF a1 noise]
  have c5': "c5 = fst (run ?c1 (five_failures n1 n2 n3 n4 n5))"
    by (simp add: c5 split_beta)
  have g: "given_up c5" using f(1) by (simp add: c5')
  have sched: "filter is_schedule (snd (run c (SocketClose # five_failures n1 n2 n3 n4 n5)))
      = map ReconnectScheduled [1000, 2000, 4000, 8000, 16000]"
    using o(5) f(3) start(3) by (simp add: split_beta backoff_delays)
  have g': "given_up (fst (run c5 evs))"
    by (rule run_unattended_given_up [OF later g])
  have quiet: "filter is_schedule (snd (run c5 evs')) = []"
    using run_at_ceiling [OF later', of c5] g by (simp add: given_up_def)
  have only: "\<forall>c0 ev d. ReconnectScheduled d \<in> set (snd (step c0 ev)) \<longrightarrow>
      ev = SocketClose \<and> reconnectAttempts c0 < RECONNECT_MAX_ATTEMPTS"
    using schedule_only_below_ceiling by blast
  from g g' f(2) sched quiet only show ?thesis
    by (simp add: given_up_def c5')
qed

theorem five_failed_reconnects_give_up_witness:
  "connectionState connected_client = CONNECTED
   \<and> connectionState (fst (run connected_client
        (SocketClose # five_failures [SocketError] [ConnectionTimeoutFired] [] [SocketError] [])))
       = FAILED_conn
   \<and> filter is_schedule (snd (run connected_client
        (SocketClose # five_failures [SocketError] [ConnectionTimeoutFired] [] [SocketError] [])))
       = map ReconnectScheduled [1000, 2000, 4000, 8000, 16000]
   \<and> connectionState (fst (run (fst (run connected_client
        (SocketClose # five_failures [SocketError] [ConnectionTimeoutFired] [] [SocketError] [])))
        [SocketClose, ReconnectTimerFired True, SocketError])) = FAILED_conn
   \<and> filter is_schedule (snd (run (fst (run connected_client
        (SocketClose # five_failures [SocketError] [ConnectionTimeoutFired] [] [SocketError] [])))
        [Connect ''alice'' True, SocketError, SocketClose, Disconnect])) = []"
proof -
  have c: "connectionState connected_client = CONNECTED" "shouldReconnect connected_client"
    "reconnectAttempts connected_client = 0"
    by (simp_all add: connected_client_def new_WebSocketClient_def connect_def doConnect_def
        updateState_def onopen_def startHeartbeat_def stopHeartbeat_def Let_def)
  show ?thesis
    using five_failed_reconnects_give_up [of connected_client "[SocketError]"
        "[ConnectionTimeoutFired]" "[]" "[SocketError]" "[]" _
        "[SocketClose, ReconnectTimerFired True, SocketError]"
        "[Connect ''alice'' True, SocketError, SocketClose, Disconnect]",
        OF _ c(2,3) _ _ _ _ _ refl] c(1)
    by simp
qed

end
